theory Spec2Isabelle
  imports Main
begin

section \<open>Migration from the IndexedDB store to the localStorage store\<close>

text \<open>
  A shallow embedding of \<^verbatim>\<open>local-storage-migration.ts\<close>: the schema probe
  \<^verbatim>\<open>hasValidIndexedDBSchema\<close>, the \<^verbatim>\<open>ProviderDB\<close> adapter and the methods of
  \<^verbatim>\<open>LocalStorageMigration\<close>.

  Every asynchronous function of the source is a function from the state of the browser (the
  record \<open>world\<close>) to a result and the state afterwards. A rejected promise or a thrown
  exception is the result \<open>Inl e\<close>; the state that goes with it is the state at the moment
  of the throw, since nothing in the source rolls anything back. What an I/O request does
  (succeed, fail, be blocked) is not decided by the program: each store carries a script that
  lists the outcome of its next requests, and a request takes the head of the script. The empty
  script lets every request succeed. A request on which no event ever fires is outside the
  model.

  Not modelled: the probe that the module starts when it is loaded (it only sets the flag
  \<^verbatim>\<open>indexedDBSchemaValid\<close>, which is arbitrary in a state here), the adapter operations
  \<^verbatim>\<open>getProfile\<close> and \<^verbatim>\<open>getDefaultProfile\<close>, which the class never calls, and
  \<^verbatim>\<open>exportIndexedDBData\<close>. JavaScript numbers are integers here.
\<close>

subsection \<open>Values\<close>

text \<open>
  What \<^verbatim>\<open>catch (error)\<close> can receive: an \<^verbatim>\<open>Error\<close> object (a \<^verbatim>\<open>DOMException\<close>
  is one) with its name and message, or some other value, kept as its string rendering.
\<close>

datatype error = ErrorObject string string | OtherValue string

text \<open>\<^verbatim>\<open>error instanceof Error ? error.message : "Unknown error"\<close>\<close>

fun message_of :: "error \<Rightarrow> string" where
  "message_of (ErrorObject n m) = m"
| "message_of (OtherValue s) = ''Unknown error''"

text \<open>The template \<^verbatim>\<open>${error}\<close>, that is \<^verbatim>\<open>Error.prototype.toString\<close> for an error object.\<close>

fun error_toString :: "error \<Rightarrow> string" where
  "error_toString (ErrorObject n m) =
     (if n = [] then m else if m = [] then n else n @ '': '' @ m)"
| "error_toString (OtherValue s) = s"

text \<open>The values a metadata record can hold (\<^verbatim>\<open>unknown\<close> in the source).\<close>

datatype jsval = JUndefined | JNull | JBool bool | JNum int | JStr string

fun truthy :: "jsval \<Rightarrow> bool" where
  "truthy JUndefined = False"
| "truthy JNull = False"
| "truthy (JBool b) = b"
| "truthy (JNum n) = (n \<noteq> 0)"
| "truthy (JStr s) = (s \<noteq> [])"

text \<open>A number inside a template literal.\<close>

definition digit_char :: "nat \<Rightarrow> char" where
  "digit_char d = char_of (48 + d)"

fun show_nat :: "nat \<Rightarrow> string" where
  "show_nat n = (if n < 10 then [digit_char n] else show_nat (n div 10) @ [digit_char (n mod 10)])"

declare show_nat.simps [simp del]

subsection \<open>Records of the two stores\<close>

record profile_record =
  profile_id :: string
  profile_name :: string
  isDefault :: bool

record encrypted_data =
  iv :: string
  data :: string

datatype provider_type = Builtin | Custom

text \<open>
  The object that \<^verbatim>\<open>migrate\<close> hands to \<^verbatim>\<open>saveProviderConfig\<close> has the fields of
  \<^verbatim>\<open>ProviderConfig\<close> without \<^verbatim>\<open>id\<close>, \<^verbatim>\<open>createdAt\<close> and \<^verbatim>\<open>updatedAt\<close>;
  \<^verbatim>\<open>ProviderConfig\<close> extends it by these three.
\<close>

record provider_config_input =
  profileId :: string
  providerId :: string
  providerType :: provider_type
  apiKey :: "encrypted_data option"
  model :: string
  baseUrl :: "string option"
  enabled :: bool
  customName :: "string option"
  customModels :: "string list option"

record provider_config = provider_config_input +
  config_id :: string
  createdAt :: int
  updatedAt :: int

subsection \<open>The state of the browser\<close>

text \<open>
  How one \<^verbatim>\<open>indexedDB.open("ai-settings-db", 1)\<close> goes. The call throws, or it returns a
  request on which, possibly after a \<^verbatim>\<open>blocked\<close> event, either \<^verbatim>\<open>success\<close> or
  \<^verbatim>\<open>error\<close> fires. \<open>Success (Some e)\<close> is a connection that opens and then throws or
  fails with \<open>e\<close> as soon as the handler uses it.
\<close>

datatype final_event = Success "error option" | Failure error

datatype open_scenario = OpenThrows error | Events bool final_event

datatype log_level = LogInfo | LogWarn | LogError

datatype log_entry = Log log_level string "error option"

record world =
  indexedDB_defined :: bool
  ProviderDB_present :: bool
  indexedDBSchemaValid :: bool
  objectStoreNames :: "string list"
  profiles_store :: "profile_record list"
  provider_configs_store :: "provider_config list"
  app_metadata_store :: "(string \<times> jsval) list"
  idb_script :: "open_scenario list"
  idb_open_requests :: nat
  idb_connections :: nat
  ls_available :: bool
  ls_schema_version :: int
  ls_profiles :: "profile_record list"
  ls_provider_configs :: "provider_config_input list"
  ls_metadata :: "(string \<times> jsval) list"
  ls_script :: "error option list"
  console :: "log_entry list"

text \<open>
  \<open>indexedDB_defined\<close> is \<^verbatim>\<open>typeof indexedDB !== "undefined"\<close>, \<open>ProviderDB_present\<close> is
  \<^verbatim>\<open>ProviderDB !== null\<close>, \<open>indexedDBSchemaValid\<close> is the module-level flag. The legacy
  database is its list of object stores and the contents of the three stores the program
  reads; a database that does not exist yet is one without object stores, which is what
  opening it at version 1 without an upgrade handler creates. \<open>idb_open_requests\<close> counts
  the calls of \<^verbatim>\<open>indexedDB.open\<close>, \<open>idb_connections\<close> the connections that are open and
  not closed.
\<close>

type_synonym 'a io = "world \<Rightarrow> (error + 'a) \<times> world"

definition try_catch :: "'a io \<Rightarrow> (error \<Rightarrow> 'a io) \<Rightarrow> 'a io" where
  "try_catch body handler w =
     (case body w of
        (Inl e, w') \<Rightarrow> handler e w'
      | (Inr x, w') \<Rightarrow> (Inr x, w'))"

definition return :: "'a \<Rightarrow> 'a io" where
  "return x w = (Inr x, w)"

definition reject :: "error \<Rightarrow> 'a io" where
  "reject e w = (Inl e, w)"

text \<open>\<^verbatim>\<open>const x = await m; ...\<close>: a rejection of \<open>m\<close> is thrown at the \<^verbatim>\<open>await\<close>.\<close>

definition await :: "'a io \<Rightarrow> ('a \<Rightarrow> 'b io) \<Rightarrow> 'b io" where
  "await m f w =
     (case m w of
        (Inl e, w') \<Rightarrow> (Inl e, w')
      | (Inr x, w') \<Rightarrow> f x w')"

text \<open>
  An \<^verbatim>\<open>await\<close> inside a \<^verbatim>\<open>try\<close> block whose \<^verbatim>\<open>catch\<close> is \<open>handler\<close>: a
  rejection of \<open>m\<close> leaves the block through the handler, otherwise the block goes on
  with \<open>f\<close>.
\<close>

definition await_or :: "'a io \<Rightarrow> (error \<Rightarrow> 'b io) \<Rightarrow> ('a \<Rightarrow> 'b io) \<Rightarrow> 'b io" where
  "await_or m handler f w =
     (case m w of
        (Inl e, w') \<Rightarrow> handler e w'
      | (Inr x, w') \<Rightarrow> f x w')"

definition console_write :: "log_level \<Rightarrow> string \<Rightarrow> error option \<Rightarrow> world \<Rightarrow> world" where
  "console_write l s e w = w\<lparr>console := console w @ [Log l s e]\<rparr>"

text \<open>\<^verbatim>\<open>console.log(s)\<close>, \<^verbatim>\<open>console.warn(s, e)\<close> and \<^verbatim>\<open>console.error(s, e)\<close>.\<close>

definition console_log :: "string \<Rightarrow> unit io" where
  "console_log s w = (Inr (), console_write LogInfo s None w)"

definition console_warn :: "string \<Rightarrow> error option \<Rightarrow> unit io" where
  "console_warn s e w = (Inr (), console_write LogWarn s e w)"

definition console_error :: "string \<Rightarrow> error option \<Rightarrow> unit io" where
  "console_error s e w = (Inr (), console_write LogError s e w)"

subsection \<open>Opening the legacy database\<close>

definition take_scenario :: "world \<Rightarrow> open_scenario \<times> world" where
  "take_scenario w =
     (case idb_script w of
        [] \<Rightarrow> (Events False (Success None), w)
      | s # ss \<Rightarrow> (s, w\<lparr>idb_script := ss\<rparr>))"

text \<open>
  \<^verbatim>\<open>indexedDB.open("ai-settings-db", 1)\<close>: throws, or returns the request with the events
  that will fire on it.
\<close>

definition indexedDB_open :: "(bool \<times> final_event) io" where
  "indexedDB_open w =
     (case take_scenario w of
        (s, w1) \<Rightarrow>
          (let w2 = w1\<lparr>idb_open_requests := idb_open_requests w1 + 1\<rparr>
           in case s of
                OpenThrows e \<Rightarrow> (Inl e, w2)
              | Events blocked ev \<Rightarrow> (Inr (blocked, ev), w2)))"

text \<open>\<^verbatim>\<open>request.result\<close> in a \<^verbatim>\<open>success\<close> handler: the connection is open now.\<close>

definition request_result :: "world \<Rightarrow> world" where
  "request_result w = w\<lparr>idb_connections := idb_connections w + 1\<rparr>"

definition db_close :: "world \<Rightarrow> world" where
  "db_close w = w\<lparr>idb_connections := idb_connections w - 1\<rparr>"

subsection \<open>The schema probe\<close>

definition requiredStores :: "string list" where
  "requiredStores = [''profiles'', ''provider_configs'', ''app_metadata'']"

text \<open>
  The body of \<^verbatim>\<open>request.onsuccess\<close> in \<^verbatim>\<open>hasValidIndexedDBSchema\<close>: the value it passes
  to \<^verbatim>\<open>resolve\<close>.
\<close>

definition schema_onsuccess :: "error option \<Rightarrow> bool io" where
  "schema_onsuccess x =
     try_catch
       (\<lambda>w. let w1 = request_result w
            in case x of
                 Some e \<Rightarrow> (Inl e, w1)
               | None \<Rightarrow>
                   (let existingStores = objectStoreNames w1;
                        hasAllStores = list_all (\<lambda>store. store \<in> set existingStores) requiredStores
                    in (Inr hasAllStores, db_close w1)))
       (\<lambda>e w. (Inr False, w))"

text \<open>
  The opens in which the body of \<^verbatim>\<open>request.onsuccess\<close> throws once it has the connection.
\<close>

fun handler_throws :: "open_scenario \<Rightarrow> bool" where
  "handler_throws (Events blocked (Success (Some e))) = True"
| "handler_throws s = False"

text \<open>
  A promise keeps the value of the first \<^verbatim>\<open>resolve\<close>. When \<^verbatim>\<open>blocked\<close> fires first the
  promise is \<^verbatim>\<open>false\<close>; the handler of the event that fires afterwards still runs.
\<close>

definition hasValidIndexedDBSchema :: "bool io" where
  "hasValidIndexedDBSchema w =
     (if \<not> indexedDB_defined w then (Inr False, w)
      else
        try_catch
          (\<lambda>w. case indexedDB_open w of
                 (Inl e, w1) \<Rightarrow> (Inl e, w1)
               | (Inr (blocked, ev), w1) \<Rightarrow>
                   (case ev of
                      Failure e \<Rightarrow> (Inr False, w1)
                    | Success x \<Rightarrow>
                        (case schema_onsuccess x w1 of
                           (Inl e, w2) \<Rightarrow> (Inl e, w2)
                         | (Inr b, w2) \<Rightarrow> (Inr (if blocked then False else b), w2))))
          (\<lambda>e w. (Inr False, w))
          w)"

subsection \<open>The adapter \<^verbatim>\<open>ProviderDB\<close>\<close>

definition NotFoundError :: error where
  "NotFoundError = ErrorObject ''NotFoundError''
     ''Failed to execute 'transaction' on 'IDBDatabase': One of the specified object stores was not found.''"

text \<open>
  What the eight operations of the adapter share: open the database, reject on
  \<^verbatim>\<open>request.onerror\<close>, and in \<^verbatim>\<open>request.onsuccess\<close> start a transaction on one object
  store and a request in it, rejecting whatever is thrown or fails. There is no
  \<^verbatim>\<open>onblocked\<close> handler, so a \<^verbatim>\<open>blocked\<close> event changes nothing. On \<open>Inr\<close> the request
  has succeeded and the connection is still open; on the failures after the open the
  source does not close it.
\<close>

definition open_transaction :: "string \<Rightarrow> unit io" where
  "open_transaction store w =
     (case indexedDB_open w of
        (Inl e, w1) \<Rightarrow> (Inl e, w1)
      | (Inr (blocked, ev), w1) \<Rightarrow>
          (case ev of
             Failure e \<Rightarrow> (Inl e, w1)
           | Success x \<Rightarrow>
               (let w2 = request_result w1
                in if store \<notin> set (objectStoreNames w2) then (Inl NotFoundError, w2)
                   else case x of
                          Some e \<Rightarrow> (Inl e, w2)
                        | None \<Rightarrow> (Inr (), w2))))"

definition ProviderDB_isAvailable :: "world \<Rightarrow> bool" where
  "ProviderDB_isAvailable w = indexedDBSchemaValid w"

definition getAllProfiles :: "profile_record list io" where
  "getAllProfiles w =
     (if \<not> indexedDBSchemaValid w then (Inr [], w)
      else await (open_transaction ''profiles'')
             (\<lambda>_ w1. (Inr (profiles_store w1), db_close w1)) w)"

definition getProviderConfigsByProfile :: "string \<Rightarrow> provider_config list io" where
  "getProviderConfigsByProfile pid w =
     (if \<not> indexedDBSchemaValid w then (Inr [], w)
      else await (open_transaction ''provider_configs'')
             (\<lambda>_ w1. (Inr (filter (\<lambda>c. profileId c = pid) (provider_configs_store w1)),
                       db_close w1)) w)"

text \<open>\<^verbatim>\<open>resolve(result ? result.value : null)\<close>\<close>

definition getMetadata :: "string \<Rightarrow> jsval io" where
  "getMetadata key w =
     (if \<not> indexedDBSchemaValid w then (Inr JNull, w)
      else await (open_transaction ''app_metadata'')
             (\<lambda>_ w1. (Inr (case map_of (app_metadata_store w1) key of
                              None \<Rightarrow> JNull
                            | Some v \<Rightarrow> v),
                       db_close w1)) w)"

text \<open>\<^verbatim>\<open>resolve(result?.value || 0)\<close>\<close>

definition getSchemaVersion :: "jsval io" where
  "getSchemaVersion w =
     (if \<not> indexedDBSchemaValid w then (Inr (JNum 0), w)
      else await (open_transaction ''app_metadata'')
             (\<lambda>_ w1. (Inr (let v = (case map_of (app_metadata_store w1) ''schema_version'' of
                                       None \<Rightarrow> JUndefined
                                     | Some v \<Rightarrow> v)
                            in if truthy v then v else JNum 0),
                       db_close w1)) w)"

definition deleteProviderConfig :: "string \<Rightarrow> unit io" where
  "deleteProviderConfig cid w =
     (if \<not> indexedDBSchemaValid w then (Inr (), w)
      else await (open_transaction ''provider_configs'')
             (\<lambda>_ w1. (Inr (),
                       db_close (w1\<lparr>provider_configs_store :=
                                     filter (\<lambda>c. config_id c \<noteq> cid) (provider_configs_store w1)\<rparr>))) w)"

definition deleteProfile :: "string \<Rightarrow> unit io" where
  "deleteProfile pid w =
     (if \<not> indexedDBSchemaValid w then (Inr (), w)
      else await (open_transaction ''profiles'')
             (\<lambda>_ w1. (Inr (),
                       db_close (w1\<lparr>profiles_store :=
                                     filter (\<lambda>p. profile_id p \<noteq> pid) (profiles_store w1)\<rparr>))) w)"

subsection \<open>The localStorage provider\<close>

text \<open>
  Modelled from the spec: the class \<^verbatim>\<open>LocalStorageProvider\<close> is imported from
  \<^verbatim>\<open>./local-storage-provider\<close>, which is not among the sources. The spec gives it as the
  Durable Key-Value Store: it "stores profile records, provider-config records, and arbitrary
  metadata keyed by string, with a schema-version counter", its operations are
  \<^verbatim>\<open>saveProfile(record)\<close>, \<^verbatim>\<open>saveProviderConfig(recordWithoutId)\<close>,
  \<^verbatim>\<open>getAllProfiles()\<close>, \<^verbatim>\<open>getProviderConfigsByProfile(id)\<close>, \<^verbatim>\<open>getSchemaVersion()\<close>,
  \<^verbatim>\<open>setSchemaVersion(n)\<close>, \<^verbatim>\<open>setMetadata(key, value)\<close> and \<^verbatim>\<open>isAvailable()\<close>, all but
  the last asynchronous, and its writes are "idempotent upserts by id, not append-only". A
  profile is replaced by its id; a provider config, which arrives without an id, by its
  profile and provider, the pair that the spec uses as the key of an exported config. Each
  asynchronous operation may throw, as the script \<open>ls_script\<close> says.
\<close>

fun upsert :: "('a \<Rightarrow> bool) \<Rightarrow> 'a \<Rightarrow> 'a list \<Rightarrow> 'a list" where
  "upsert same x [] = [x]"
| "upsert same x (y # ys) = (if same y then x # ys else y # upsert same x ys)"

definition ls_request :: "unit io" where
  "ls_request w =
     (case ls_script w of
        [] \<Rightarrow> (Inr (), w)
      | None # os \<Rightarrow> (Inr (), w\<lparr>ls_script := os\<rparr>)
      | Some e # os \<Rightarrow> (Inl e, w\<lparr>ls_script := os\<rparr>))"

definition localStorageProvider_isAvailable :: "world \<Rightarrow> bool" where
  "localStorageProvider_isAvailable w = ls_available w"

definition localStorageProvider_getSchemaVersion :: "int io" where
  "localStorageProvider_getSchemaVersion =
     await ls_request (\<lambda>_ w. (Inr (ls_schema_version w), w))"

definition localStorageProvider_setSchemaVersion :: "int \<Rightarrow> unit io" where
  "localStorageProvider_setSchemaVersion n =
     await ls_request (\<lambda>_ w. (Inr (), w\<lparr>ls_schema_version := n\<rparr>))"

definition localStorageProvider_saveProfile :: "profile_record \<Rightarrow> unit io" where
  "localStorageProvider_saveProfile p =
     await ls_request
       (\<lambda>_ w. (Inr (), w\<lparr>ls_profiles :=
                            upsert (\<lambda>q. profile_id q = profile_id p) p (ls_profiles w)\<rparr>))"

definition localStorageProvider_saveProviderConfig :: "provider_config_input \<Rightarrow> unit io" where
  "localStorageProvider_saveProviderConfig c =
     await ls_request
       (\<lambda>_ w. (Inr (), w\<lparr>ls_provider_configs :=
                            upsert (\<lambda>d. profileId d = profileId c \<and> providerId d = providerId c) c
                              (ls_provider_configs w)\<rparr>))"

definition localStorageProvider_getAllProfiles :: "profile_record list io" where
  "localStorageProvider_getAllProfiles =
     await ls_request (\<lambda>_ w. (Inr (ls_profiles w), w))"

definition localStorageProvider_getProviderConfigsByProfile ::
    "string \<Rightarrow> provider_config_input list io" where
  "localStorageProvider_getProviderConfigsByProfile pid =
     await ls_request
       (\<lambda>_ w. (Inr (filter (\<lambda>c. profileId c = pid) (ls_provider_configs w)), w))"

definition localStorageProvider_setMetadata :: "string \<Rightarrow> jsval \<Rightarrow> unit io" where
  "localStorageProvider_setMetadata key v =
     await ls_request
       (\<lambda>_ w. (Inr (), w\<lparr>ls_metadata := upsert (\<lambda>kv. fst kv = key) (key, v) (ls_metadata w)\<rparr>))"

subsection \<open>The class \<^verbatim>\<open>LocalStorageMigration\<close>\<close>

record outcome =
  success :: bool
  message :: string

record migration_result = outcome +
  migratedItems :: nat

record migration_status =
  needsMigration :: bool
  localStorageAvailable :: bool
  localStorageItems :: nat
  indexedDBAvailable :: bool
  indexedDBItems :: nat

text \<open>\<^verbatim>\<open>const schemaValid = await hasValidIndexedDBSchema(); indexedDBSchemaValid = schemaValid\<close>\<close>

definition validate_schema :: "bool io" where
  "validate_schema =
     await hasValidIndexedDBSchema
       (\<lambda>schemaValid w. (Inr schemaValid, w\<lparr>indexedDBSchemaValid := schemaValid\<rparr>))"

definition mark_migrated :: "bool io" where
  "mark_migrated = await (localStorageProvider_setSchemaVersion 2) (\<lambda>_. return False)"

definition isMigrationNeeded :: "bool io" where
  "isMigrationNeeded =
     try_catch
       (await localStorageProvider_getSchemaVersion (\<lambda>currentVersion.
          if currentVersion \<ge> 2 then return False
          else
            await validate_schema (\<lambda>schemaValid w.
              if \<not> ProviderDB_present w \<or> \<not> schemaValid then mark_migrated w
              else
                await getAllProfiles (\<lambda>profiles.
                  if length profiles = 0 then mark_migrated
                  else return True) w)))
       (\<lambda>error.
          await (console_error ''Error checking migration status:'' (Some error)) (\<lambda>_.
            await (try_catch (localStorageProvider_setSchemaVersion 2) (\<lambda>_. return ()))
              (\<lambda>_. return False)))"

text \<open>The first loop of \<^verbatim>\<open>migrate\<close>; the number is \<^verbatim>\<open>migratedItems\<close>.\<close>

fun save_profiles :: "profile_record list \<Rightarrow> nat \<Rightarrow> nat io" where
  "save_profiles [] n = return n"
| "save_profiles (profile # rest) n =
     await (localStorageProvider_saveProfile profile) (\<lambda>_. save_profiles rest (n + 1))"

definition config_input :: "provider_config \<Rightarrow> provider_config_input" where
  "config_input config =
     \<lparr>profileId = profileId config,
      providerId = providerId config,
      providerType = providerType config,
      apiKey = apiKey config,
      model = model config,
      baseUrl = baseUrl config,
      enabled = enabled config,
      customName = customName config,
      customModels = customModels config\<rparr>"

text \<open>
  The loops over the configs of one profile and over the profiles; the pair is
  \<^verbatim>\<open>migratedItems\<close> and \<^verbatim>\<open>providerConfigsMigrated\<close>.
\<close>

fun save_configs :: "provider_config list \<Rightarrow> nat \<times> nat \<Rightarrow> (nat \<times> nat) io" where
  "save_configs [] acc = return acc"
| "save_configs (config # rest) acc =
     await (localStorageProvider_saveProviderConfig (config_input config))
       (\<lambda>_. save_configs rest (fst acc + 1, snd acc + 1))"

fun migrate_configs :: "profile_record list \<Rightarrow> nat \<times> nat \<Rightarrow> (nat \<times> nat) io" where
  "migrate_configs [] acc = return acc"
| "migrate_configs (profile # rest) acc =
     await (getProviderConfigsByProfile (profile_id profile)) (\<lambda>configs.
       await (console_log
                (''Migrating '' @ show_nat (length configs) @ '' provider configs for profile ''
                   @ profile_name profile)) (\<lambda>_.
         await (save_configs configs acc) (migrate_configs rest)))"

text \<open>
  The inner \<^verbatim>\<open>try\<close> of \<^verbatim>\<open>migrate\<close>. \<^verbatim>\<open>migratedItems\<close> is declared outside it, so the
  handler continues with the count reached at the throw.
\<close>

definition metadata_caught :: "nat \<Rightarrow> error \<Rightarrow> nat io" where
  "metadata_caught n error =
     await (console_warn ''Error migrating metadata:'' (Some error)) (\<lambda>_. return n)"

definition migrate_schema_version :: "nat \<Rightarrow> nat io" where
  "migrate_schema_version n =
     await_or getSchemaVersion (metadata_caught n) (\<lambda>schemaVersion.
     await_or (localStorageProvider_setMetadata ''schema_version'' schemaVersion)
       (metadata_caught n) (\<lambda>_.
     return (n + 1)))"

definition migrate_metadata :: "nat \<Rightarrow> nat io" where
  "migrate_metadata n =
     await_or (getMetadata ''active_profile_id'') (metadata_caught n) (\<lambda>activeProfileId.
       if truthy activeProfileId
       then await_or (localStorageProvider_setMetadata ''active_profile_id'' activeProfileId)
              (metadata_caught n) (\<lambda>_.
            migrate_schema_version (n + 1))
       else migrate_schema_version n)"

text \<open>The outer \<^verbatim>\<open>try\<close> block of \<^verbatim>\<open>migrate\<close>.\<close>

definition migrate_body :: "migration_result io" where
  "migrate_body =
     await (console_log ''Starting IndexedDB to localStorage migration...'') (\<lambda>_.
     await getAllProfiles (\<lambda>profiles.
     await (console_log (''Found '' @ show_nat (length profiles) @ '' profiles to migrate''))
       (\<lambda>_.
     await (save_profiles profiles 0) (\<lambda>n1.
     await getAllProfiles (\<lambda>allProfiles.
     await (migrate_configs allProfiles (n1, 0)) (\<lambda>(n2, providerConfigsMigrated).
     await (migrate_metadata n2) (\<lambda>n3.
     await (localStorageProvider_setSchemaVersion 2) (\<lambda>_.
     await (console_log
              (''Migration completed successfully. Migrated '' @ show_nat n3 @ '' items.''))
       (\<lambda>_.
     return \<lparr>success = True,
             message = ''Successfully migrated '' @ show_nat (length profiles)
               @ '' profiles and '' @ show_nat providerConfigsMigrated
               @ '' provider configurations'',
             migratedItems = n3\<rparr>)))))))))"

definition migrate :: "migration_result io" where
  "migrate w =
     (if \<not> localStorageProvider_isAvailable w
      then return \<lparr>success = False, message = ''localStorage is not available'',
                   migratedItems = 0\<rparr> w
      else
        await validate_schema (\<lambda>schemaValid w1.
          if \<not> ProviderDB_present w1 \<or> \<not> schemaValid
          then return \<lparr>success = False,
                       message = ''IndexedDB is not available or has invalid schema'',
                       migratedItems = 0\<rparr> w1
          else
            try_catch migrate_body
              (\<lambda>error.
                 await (console_error ''Migration failed:'' (Some error)) (\<lambda>_.
                   return \<lparr>success = False,
                           message = ''Migration failed: '' @ message_of error,
                           migratedItems = 0\<rparr>))
              w1) w)"

text \<open>The two loops of \<^verbatim>\<open>clearIndexedDB\<close>.\<close>

fun delete_configs :: "provider_config list \<Rightarrow> unit io" where
  "delete_configs [] = return ()"
| "delete_configs (config # rest) =
     await (deleteProviderConfig (config_id config)) (\<lambda>_. delete_configs rest)"

fun delete_all_configs :: "profile_record list \<Rightarrow> unit io" where
  "delete_all_configs [] = return ()"
| "delete_all_configs (profile # rest) =
     await (getProviderConfigsByProfile (profile_id profile)) (\<lambda>configs.
       await (delete_configs configs) (\<lambda>_. delete_all_configs rest))"

fun delete_profiles :: "profile_record list \<Rightarrow> unit io" where
  "delete_profiles [] = return ()"
| "delete_profiles (profile # rest) =
     (if \<not> isDefault profile
      then await (try_catch (deleteProfile (profile_id profile))
                    (\<lambda>error.
                       console_warn (''Could not delete profile '' @ profile_id profile @ '':'')
                         (Some error)))
             (\<lambda>_. delete_profiles rest)
      else delete_profiles rest)"

definition clear_body :: "unit io" where
  "clear_body =
     await (console_log ''Clearing IndexedDB after migration...'') (\<lambda>_.
     await getAllProfiles (\<lambda>profiles.
     await (delete_all_configs profiles) (\<lambda>_.
     await (delete_profiles profiles) (\<lambda>_.
     console_log ''IndexedDB cleanup completed''))))"

definition clearIndexedDB :: "unit io" where
  "clearIndexedDB =
     await validate_schema (\<lambda>schemaValid w.
       if \<not> ProviderDB_present w \<or> \<not> schemaValid
       then console_warn ''IndexedDB not available or has invalid schema, skipping cleanup''
              None w
       else
         try_catch clear_body
           (\<lambda>error. await (console_error ''Error clearing IndexedDB:'' (Some error))
                       (\<lambda>_. reject error))
           w)"

text \<open>
  When the migration failed \<^verbatim>\<open>migrateAndCleanup\<close> returns the result of \<^verbatim>\<open>migrate\<close>
  itself; its declared type keeps \<^verbatim>\<open>success\<close> and \<^verbatim>\<open>message\<close>.
\<close>

definition migrateAndCleanup :: "outcome io" where
  "migrateAndCleanup =
     await migrate (\<lambda>migrationResult.
       if \<not> success migrationResult
       then return \<lparr>success = success migrationResult, message = message migrationResult\<rparr>
       else
         try_catch
           (await clearIndexedDB (\<lambda>_.
              return \<lparr>success = True,
                      message = message migrationResult @ '' IndexedDB has been cleaned up.''\<rparr>))
           (\<lambda>error.
              return \<lparr>success = True,
                      message = message migrationResult
                        @ '' Warning: Could not clear IndexedDB: '' @ error_toString error\<rparr>))"

text \<open>
  The two counting loops of \<^verbatim>\<open>getMigrationStatus\<close>. The counters are declared outside the
  \<^verbatim>\<open>try\<close> blocks: a loop returns the error that stopped it, if any, and the count so far.
\<close>

fun count_localStorage_configs ::
    "profile_record list \<Rightarrow> nat \<Rightarrow> world \<Rightarrow> (error option \<times> nat) \<times> world" where
  "count_localStorage_configs [] n w = ((None, n), w)"
| "count_localStorage_configs (profile # rest) n w =
     (case localStorageProvider_getProviderConfigsByProfile (profile_id profile) w of
        (Inl error, w1) \<Rightarrow> ((Some error, n), w1)
      | (Inr configs, w1) \<Rightarrow> count_localStorage_configs rest (n + length configs) w1)"

fun count_indexedDB_configs ::
    "profile_record list \<Rightarrow> nat \<Rightarrow> world \<Rightarrow> (error option \<times> nat) \<times> world" where
  "count_indexedDB_configs [] n w = ((None, n), w)"
| "count_indexedDB_configs (profile # rest) n w =
     (case getProviderConfigsByProfile (profile_id profile) w of
        (Inl error, w1) \<Rightarrow> ((Some error, n), w1)
      | (Inr configs, w1) \<Rightarrow> count_indexedDB_configs rest (n + length configs) w1)"

definition count_localStorage_items :: "world \<Rightarrow> nat \<times> world" where
  "count_localStorage_items w =
     (case localStorageProvider_getAllProfiles w of
        (Inl error, w1) \<Rightarrow>
          (0, console_write LogWarn ''Error counting localStorage items:'' (Some error) w1)
      | (Inr profiles, w1) \<Rightarrow>
          (case count_localStorage_configs profiles (0 + length profiles) w1 of
             ((None, n), w2) \<Rightarrow> (n, w2)
           | ((Some error, n), w2) \<Rightarrow>
               (n, console_write LogWarn ''Error counting localStorage items:'' (Some error) w2)))"

definition count_indexedDB_items :: "world \<Rightarrow> nat \<times> world" where
  "count_indexedDB_items w =
     (case getAllProfiles w of
        (Inl error, w1) \<Rightarrow>
          (0, console_write LogWarn ''Error counting IndexedDB items:'' (Some error) w1)
      | (Inr profiles, w1) \<Rightarrow>
          (case count_indexedDB_configs profiles (0 + length profiles) w1 of
             ((None, n), w2) \<Rightarrow> (n, w2)
           | ((Some error, n), w2) \<Rightarrow>
               (0, console_write LogWarn ''Error counting IndexedDB items:'' (Some error) w2)))"

definition getMigrationStatus :: "migration_status io" where
  "getMigrationStatus w =
     (let localStorageAvailable = localStorageProvider_isAvailable w
      in await validate_schema (\<lambda>schemaValid w1.
           let indexedDBAvailable =
                 (if ProviderDB_present w1 \<and> schemaValid then ProviderDB_isAvailable w1 else False)
           in await isMigrationNeeded (\<lambda>needsMigration w2.
                case (if localStorageAvailable then count_localStorage_items w2 else (0, w2)) of
                  (lsItems, w3) \<Rightarrow>
                    (case (if indexedDBAvailable \<and> ProviderDB_present w3 \<and> schemaValid
                           then count_indexedDB_items w3 else (0, w3)) of
                       (idbItems, w4) \<Rightarrow>
                         (Inr \<lparr>needsMigration = needsMigration,
                               localStorageAvailable = localStorageAvailable,
                               localStorageItems = lsItems,
                               indexedDBAvailable = indexedDBAvailable,
                               indexedDBItems = idbItems\<rparr>, w4))) w1) w)"

subsection \<open>What the stores hold\<close>

text \<open>
  The contents of the legacy database, the contents of localStorage apart from the schema
  version, and what the platform offers. Two relations between a state and a later one: in
  \<open>reads\<close> the contents of both stores are the same; in \<open>marks\<close> the schema version of
  localStorage may also have become 2.
\<close>

definition legacy_db ::
    "world \<Rightarrow> string list \<times> profile_record list \<times> provider_config list \<times> (string \<times> jsval) list" where
  "legacy_db w =
     (objectStoreNames w, profiles_store w, provider_configs_store w, app_metadata_store w)"

definition durable_db ::
    "world \<Rightarrow> bool \<times> profile_record list \<times> provider_config_input list \<times> (string \<times> jsval) list" where
  "durable_db w = (ls_available w, ls_profiles w, ls_provider_configs w, ls_metadata w)"

definition platform :: "world \<Rightarrow> bool \<times> bool" where
  "platform w = (indexedDB_defined w, ProviderDB_present w)"

definition reads :: "world \<Rightarrow> world \<Rightarrow> bool" where
  "reads w w' \<longleftrightarrow>
     legacy_db w' = legacy_db w \<and> durable_db w' = durable_db w \<and> platform w' = platform w
     \<and> ls_schema_version w' = ls_schema_version w"

definition marks :: "world \<Rightarrow> world \<Rightarrow> bool" where
  "marks w w' \<longleftrightarrow>
     legacy_db w' = legacy_db w \<and> durable_db w' = durable_db w \<and> platform w' = platform w
     \<and> (ls_schema_version w' = ls_schema_version w \<or> ls_schema_version w' = 2)"

text \<open>
  For the cleanup: the profiles of the legacy database are the same afterwards
  (\<open>keeps_profiles\<close>), or at least the profile \<open>d\<close> is still there if it was
  (\<open>keeps_profile d\<close>).
\<close>

definition keeps_profiles :: "world \<Rightarrow> world \<Rightarrow> bool" where
  "keeps_profiles w w' \<longleftrightarrow> profiles_store w' = profiles_store w"

definition keeps_profile :: "profile_record \<Rightarrow> world \<Rightarrow> world \<Rightarrow> bool" where
  "keeps_profile d w w' \<longleftrightarrow> (d \<in> set (profiles_store w) \<longrightarrow> d \<in> set (profiles_store w'))"

text \<open>
  For the migration: the provider configs of the legacy database are the same afterwards, and
  every provider config in localStorage was there before or is the \<open>config_input\<close> of a
  provider config of the legacy database.
\<close>

definition relays :: "world \<Rightarrow> world \<Rightarrow> bool" where
  "relays w w' \<longleftrightarrow>
     provider_configs_store w' = provider_configs_store w
     \<and> set (ls_provider_configs w')
         \<subseteq> set (ls_provider_configs w) \<union> config_input ` set (provider_configs_store w)"

text \<open>
  For a run in which no request fails: \<open>calm\<close> says that both scripts are empty, that
  \<^verbatim>\<open>indexedDB\<close>, the adapter and localStorage are there and that the legacy database has
  the three object stores; \<open>yields m w x\<close> says that \<open>m\<close> run in \<open>w\<close> resolves to \<open>x\<close> and
  leaves a calm state with the validity flag set and the legacy database as it was.
\<close>

definition calm :: "world \<Rightarrow> bool" where
  "calm w \<longleftrightarrow>
     idb_script w = [] \<and> ls_script w = [] \<and> indexedDB_defined w \<and> ProviderDB_present w
     \<and> ls_available w \<and> set requiredStores \<subseteq> set (objectStoreNames w)"

definition yields :: "'a io \<Rightarrow> world \<Rightarrow> 'a \<Rightarrow> bool" where
  "yields m w x \<longleftrightarrow>
     fst (m w) = Inr x \<and> calm (snd (m w)) \<and> indexedDBSchemaValid (snd (m w))
     \<and> legacy_db (snd (m w)) = legacy_db w"

definition configs_of :: "world \<Rightarrow> profile_record \<Rightarrow> provider_config list" where
  "configs_of w p = filter (\<lambda>c. profileId c = profile_id p) (provider_configs_store w)"

definition active_profile_id :: "world \<Rightarrow> jsval" where
  "active_profile_id w =
     (case map_of (app_metadata_store w) ''active_profile_id'' of None \<Rightarrow> JNull | Some v \<Rightarrow> v)"

subsection \<open>Example states\<close>

text \<open>
  A browser with a well-formed legacy database: the default profile with one provider config,
  a second profile with two, no metadata; localStorage is empty and available, and every
  request succeeds.
\<close>

definition example_default :: profile_record where
  "example_default = \<lparr>profile_id = ''p1'', profile_name = ''Default'', isDefault = True\<rparr>"

definition example_work :: profile_record where
  "example_work = \<lparr>profile_id = ''p2'', profile_name = ''Work'', isDefault = False\<rparr>"


definition example_config :: "string \<Rightarrow> string \<Rightarrow> string \<Rightarrow> provider_config" where
  "example_config i p pr =
     \<lparr>profileId = p, providerId = pr, providerType = Builtin,
      apiKey = Some \<lparr>iv = ''aXY='', data = ''ZGF0YQ==''\<rparr>,
      model = ''m'', baseUrl = None, enabled = True, customName = None, customModels = None,
      config_id = i, createdAt = 1, updatedAt = 2\<rparr>"

definition example_world :: world where
  "example_world =
     \<lparr>indexedDB_defined = True, ProviderDB_present = True, indexedDBSchemaValid = False,
      objectStoreNames = [''profiles'', ''provider_configs'', ''app_metadata''],
      profiles_store = [example_default, example_work],
      provider_configs_store =
        [example_config ''c1'' ''p1'' ''openai'', example_config ''c2'' ''p2'' ''openai'',
         example_config ''c3'' ''p2'' ''google''],
      app_metadata_store = [],
      idb_script = [], idb_open_requests = 0, idb_connections = 0,
      ls_available = True, ls_schema_version = 0, ls_profiles = [], ls_provider_configs = [],
      ls_metadata = [], ls_script = [], console = []\<rparr>"

definition example_error :: error where
  "example_error = ErrorObject ''AbortError'' ''boom''"

text \<open>The same browser where the \<open>n\<close> next opens of the database succeed and the one after fails.\<close>

definition failing_after :: "nat \<Rightarrow> world" where
  "failing_after n =
     example_world\<lparr>idb_script :=
       replicate n (Events False (Success None)) @ [Events False (Failure example_error)]\<rparr>"

section \<open>Properties\<close>

subsection \<open>Sequencing\<close>



lemma await_InrD:
  "await m f w = (Inr y, w') \<Longrightarrow> \<exists>x w1. m w = (Inr x, w1) \<and> f x w1 = (Inr y, w')"
  by (auto simp: await_def split: prod.splits sum.splits)

lemma await_rel:
  assumes "transp R" and "R w (snd (m w))" and "\<And>x w. R w (snd (f x w))"
  shows "R w (snd (await m f w))"
proof (cases "m w")
  case (Pair r w1)
  have 1: "R w w1" using assms(2) Pair by simp
  show ?thesis
  proof (cases r)
    case (Inl e)
    then show ?thesis using Pair 1 by (simp add: await_def)
  next
    case (Inr x)
    have "R w1 (snd (f x w1))" by (rule assms(3))
    with 1 have "R w (snd (f x w1))" using assms(1) by (meson transpD)
    then show ?thesis using Pair Inr by (simp add: await_def)
  qed
qed

lemma try_catch_rel:
  assumes "transp R" and "R w (snd (m w))" and "\<And>e w. R w (snd (h e w))"
  shows "R w (snd (try_catch m h w))"
proof (cases "m w")
  case (Pair r w1)
  have 1: "R w w1" using assms(2) Pair by simp
  show ?thesis
  proof (cases r)
    case (Inr x)
    then show ?thesis using Pair 1 by (simp add: try_catch_def)
  next
    case (Inl e)
    have "R w1 (snd (h e w1))" by (rule assms(3))
    with 1 have "R w (snd (h e w1))" using assms(1) by (meson transpD)
    then show ?thesis using Pair Inl by (simp add: try_catch_def)
  qed
qed

lemma rel_if:
  "(c \<Longrightarrow> R w (snd a)) \<Longrightarrow> (\<not> c \<Longrightarrow> R w (snd b)) \<Longrightarrow> R w (snd (if c then a else b))"
  by simp

lemma rel_if_app:
  "(c \<Longrightarrow> R w (snd (a w))) \<Longrightarrow> (\<not> c \<Longrightarrow> R w (snd (b w))) \<Longrightarrow>
   R w (snd ((if c then a else b) w))"
  by simp

lemma await_or_rel:
  assumes "transp R" and "R w (snd (m w))" and "\<And>e w. R w (snd (h e w))"
    and "\<And>x w. R w (snd (f x w))"
  shows "R w (snd (await_or m h f w))"
proof (cases "m w")
  case (Pair r w1)
  have 1: "R w w1" using assms(2) Pair by simp
  show ?thesis
  proof (cases r)
    case (Inl e)
    have "R w1 (snd (h e w1))" by (rule assms(3))
    with 1 have "R w (snd (h e w1))" using assms(1) by (meson transpD)
    then show ?thesis using Pair Inl by (simp add: await_or_def)
  next
    case (Inr x)
    have "R w1 (snd (f x w1))" by (rule assms(4))
    with 1 have "R w (snd (f x w1))" using assms(1) by (meson transpD)
    then show ?thesis using Pair Inr by (simp add: await_or_def)
  qed
qed

lemma rel_case_prod:
  "(\<And>a b. R w (snd (f a b w))) \<Longrightarrow> R w (snd ((case x of (a, b) \<Rightarrow> f a b) w))"
  by (cases x) simp

subsection \<open>The schema probe\<close>

lemma hasValidIndexedDBSchema_Inr: "\<exists>b w'. hasValidIndexedDBSchema w = (Inr b, w')"
  by (cases "take_scenario w")
     (auto simp: hasValidIndexedDBSchema_def try_catch_def indexedDB_open_def schema_onsuccess_def
        Let_def
      split: open_scenario.splits final_event.splits option.splits)

text \<open>
  C4. The probe always resolves to a boolean, never to a rejection. The boolean is \<open>True\<close>
  exactly when \<^verbatim>\<open>indexedDB\<close> is defined, the open fires \<^verbatim>\<open>success\<close> without a
  \<^verbatim>\<open>blocked\<close> event before it and without an exception in the handler, and the three
  required object stores are among the stores of the database. So a throwing open, an
  \<^verbatim>\<open>error\<close> event, a \<^verbatim>\<open>blocked\<close> event, an exception while the stores are listed and a
  missing store all give \<open>False\<close>.
\<close>

theorem hasValidIndexedDBSchema_result:
  "fst (hasValidIndexedDBSchema w) =
     Inr (indexedDB_defined w
          \<and> fst (take_scenario w) = Events False (Success None)
          \<and> {''profiles'', ''provider_configs'', ''app_metadata''} \<subseteq> set (objectStoreNames w))"
  by (cases "take_scenario w")
     (auto simp: hasValidIndexedDBSchema_def try_catch_def indexedDB_open_def schema_onsuccess_def
        request_result_def db_close_def requiredStores_def Let_def take_scenario_def
      split: open_scenario.splits final_event.splits option.splits list.splits)

theorem hasValidIndexedDBSchema_result_witness:
  "fst (hasValidIndexedDBSchema example_world) = Inr True
   \<and> fst (hasValidIndexedDBSchema
            (example_world\<lparr>idb_script := [Events True (Success None)]\<rparr>)) = Inr False
   \<and> fst (hasValidIndexedDBSchema
            (example_world\<lparr>idb_script := [Events False (Failure example_error)]\<rparr>)) = Inr False
   \<and> fst (hasValidIndexedDBSchema
            (example_world\<lparr>objectStoreNames := [''profiles'', ''app_metadata'']\<rparr>)) = Inr False"
  using hasValidIndexedDBSchema_result [of example_world]
    hasValidIndexedDBSchema_result [of "example_world\<lparr>idb_script := [Events True (Success None)]\<rparr>"]
    hasValidIndexedDBSchema_result
      [of "example_world\<lparr>idb_script := [Events False (Failure example_error)]\<rparr>"]
    hasValidIndexedDBSchema_result
      [of "example_world\<lparr>objectStoreNames := [''profiles'', ''app_metadata'']\<rparr>"]
  by (simp add: example_world_def take_scenario_def)

text \<open>
  C7, as the code has it. \<^verbatim>\<open>db.close()\<close> stands on the success path of the handler only.
  The probe returns with as many open connections as before when the handler runs to its end
  (all stores present or a store missing, also when it runs after a \<^verbatim>\<open>blocked\<close> event),
  and when no connection is opened (\<^verbatim>\<open>indexedDB\<close> undefined, a throwing open, an
  \<^verbatim>\<open>error\<close> event). It returns with one more when the body of the handler throws: the
  \<^verbatim>\<open>catch\<close> resolves \<^verbatim>\<open>false\<close> and closes nothing.
\<close>

theorem hasValidIndexedDBSchema_connections:
  "idb_connections (snd (hasValidIndexedDBSchema w)) =
     (if indexedDB_defined w \<and> handler_throws (fst (take_scenario w))
      then idb_connections w + 1 else idb_connections w)"
  by (cases "take_scenario w")
     (auto simp: hasValidIndexedDBSchema_def try_catch_def indexedDB_open_def schema_onsuccess_def
        request_result_def db_close_def Let_def take_scenario_def
      split: open_scenario.splits final_event.splits option.splits list.splits)

theorem hasValidIndexedDBSchema_connections_witness:
  "idb_connections (snd (hasValidIndexedDBSchema example_world)) = 0
   \<and> idb_connections (snd (hasValidIndexedDBSchema
         (example_world\<lparr>objectStoreNames := [''profiles'']\<rparr>))) = 0
   \<and> idb_connections (snd (hasValidIndexedDBSchema
         (example_world\<lparr>idb_script := [Events False (Failure example_error)]\<rparr>))) = 0
   \<and> idb_connections (snd (hasValidIndexedDBSchema
         (example_world\<lparr>idb_script := [Events True (Success None)]\<rparr>))) = 0
   \<and> idb_connections (snd (hasValidIndexedDBSchema
         (example_world\<lparr>idb_script := [OpenThrows example_error]\<rparr>))) = 0
   \<and> idb_connections (snd (hasValidIndexedDBSchema
         (example_world\<lparr>idb_script := [Events True (Success (Some example_error))]\<rparr>))) = 1"
  using hasValidIndexedDBSchema_connections [of example_world]
    hasValidIndexedDBSchema_connections [of "example_world\<lparr>objectStoreNames := [''profiles'']\<rparr>"]
    hasValidIndexedDBSchema_connections
      [of "example_world\<lparr>idb_script := [Events False (Failure example_error)]\<rparr>"]
    hasValidIndexedDBSchema_connections
      [of "example_world\<lparr>idb_script := [Events True (Success None)]\<rparr>"]
    hasValidIndexedDBSchema_connections
      [of "example_world\<lparr>idb_script := [OpenThrows example_error]\<rparr>"]
    hasValidIndexedDBSchema_connections
      [of "example_world\<lparr>idb_script := [Events True (Success (Some example_error))]\<rparr>"]
  by (simp add: example_world_def take_scenario_def)

text \<open>
  The claim C7 as it is written fails on the branch of the exception: the open succeeds,
  listing the stores throws, and the probe resolves \<^verbatim>\<open>false\<close> with the connection open.
\<close>

theorem hasValidIndexedDBSchema_leaks_connection_counterexample:
  "fst (hasValidIndexedDBSchema
          (example_world\<lparr>idb_script := [Events False (Success (Some example_error))]\<rparr>)) = Inr False
   \<and> idb_connections (example_world\<lparr>idb_script := [Events False (Success (Some example_error))]\<rparr>) = 0
   \<and> idb_connections (snd (hasValidIndexedDBSchema
          (example_world\<lparr>idb_script := [Events False (Success (Some example_error))]\<rparr>))) = 1"
  by (simp add: example_world_def hasValidIndexedDBSchema_def try_catch_def indexedDB_open_def
      take_scenario_def schema_onsuccess_def request_result_def db_close_def requiredStores_def)

subsection \<open>The schema version of the legacy store\<close>

text \<open>
  C10. \<^verbatim>\<open>ProviderDB.getSchemaVersion\<close> returns 0 without touching the database when the
  cached flag is false: the state is the same afterwards, so no open was requested. When the
  flag is true and the request goes through, it returns 0 both when there is no
  \<^verbatim>\<open>schema_version\<close> record and when the recorded value is falsy, so the two cannot be
  told apart.
\<close>

theorem getSchemaVersion_zero:
  "(\<not> indexedDBSchemaValid w \<longrightarrow> getSchemaVersion w = (Inr (JNum 0), w))
   \<and> (indexedDBSchemaValid w \<and> fst (open_transaction ''app_metadata'' w) = Inr ()
        \<and> map_of (app_metadata_store w) ''schema_version'' = None
      \<longrightarrow> fst (getSchemaVersion w) = Inr (JNum 0))
   \<and> (indexedDBSchemaValid w \<and> fst (open_transaction ''app_metadata'' w) = Inr ()
        \<and> map_of (app_metadata_store w) ''schema_version'' = Some v \<and> \<not> truthy v
      \<longrightarrow> fst (getSchemaVersion w) = Inr (JNum 0))"
  by (cases "take_scenario w")
     (auto simp: getSchemaVersion_def await_def open_transaction_def indexedDB_open_def
        request_result_def db_close_def Let_def take_scenario_def
      split: open_scenario.splits final_event.splits option.splits list.splits prod.splits
        if_splits)

theorem getSchemaVersion_zero_witness:
  "getSchemaVersion example_world = (Inr (JNum 0), example_world)
   \<and> fst (getSchemaVersion (example_world\<lparr>indexedDBSchemaValid := True\<rparr>)) = Inr (JNum 0)
   \<and> fst (getSchemaVersion
            (example_world\<lparr>indexedDBSchemaValid := True,
               app_metadata_store := [(''schema_version'', JNum 0)]\<rparr>)) = Inr (JNum 0)
   \<and> fst (getSchemaVersion
            (example_world\<lparr>indexedDBSchemaValid := True,
               app_metadata_store := [(''schema_version'', JStr [])]\<rparr>)) = Inr (JNum 0)
   \<and> fst (getSchemaVersion
            (example_world\<lparr>indexedDBSchemaValid := True,
               app_metadata_store := [(''schema_version'', JNull)]\<rparr>)) = Inr (JNum 0)"
proof -
  have flag: "\<not> indexedDBSchemaValid example_world"
    by (simp add: example_world_def)
  have opens: "fst (open_transaction ''app_metadata''
                      (example_world\<lparr>indexedDBSchemaValid := True, app_metadata_store := m\<rparr>)) = Inr ()"
    for m
    by (simp add: example_world_def open_transaction_def indexedDB_open_def take_scenario_def
        request_result_def)
  have absent: "map_of (app_metadata_store (example_world\<lparr>indexedDBSchemaValid := True\<rparr>))
                  ''schema_version'' = None"
    by (simp add: example_world_def)
  have same: "example_world\<lparr>indexedDBSchemaValid := True\<rparr> =
              example_world\<lparr>indexedDBSchemaValid := True, app_metadata_store := []\<rparr>"
    by (simp add: example_world_def)
  show ?thesis
    using flag absent opens [of "[]"] same
      getSchemaVersion_zero [of example_world]
      getSchemaVersion_zero [of "example_world\<lparr>indexedDBSchemaValid := True\<rparr>"]
      opens [of "[(''schema_version'', JNum 0)]"]
      getSchemaVersion_zero [of "example_world\<lparr>indexedDBSchemaValid := True,
               app_metadata_store := [(''schema_version'', JNum 0)]\<rparr>" "JNum 0"]
      opens [of "[(''schema_version'', JStr [])]"]
      getSchemaVersion_zero [of "example_world\<lparr>indexedDBSchemaValid := True,
               app_metadata_store := [(''schema_version'', JStr [])]\<rparr>" "JStr []"]
      opens [of "[(''schema_version'', JNull)]"]
      getSchemaVersion_zero [of "example_world\<lparr>indexedDBSchemaValid := True,
               app_metadata_store := [(''schema_version'', JNull)]\<rparr>" JNull]
    by simp
qed

subsection \<open>Failure and success of the migration\<close>

lemma migrate_body_success: "migrate_body w = (Inr r, w') \<Longrightarrow> success r"
  unfolding migrate_body_def
  by (auto simp: return_def dest!: await_InrD)

text \<open>Every result of \<^verbatim>\<open>migrate\<close> that is not a success reports no item.\<close>

lemma migrate_unsuccessful_zero:
  assumes "fst (migrate w) = Inr r" and "\<not> success r"
  shows "migratedItems r = 0"
proof -
  obtain b w1 where v: "hasValidIndexedDBSchema w = (Inr b, w1)"
    using hasValidIndexedDBSchema_Inr by blast
  show ?thesis
  proof (cases "migrate_body (w1\<lparr>indexedDBSchemaValid := True\<rparr>)")
    case (Pair c w2)
    then show ?thesis
      using assms v migrate_body_success [of "w1\<lparr>indexedDBSchemaValid := True\<rparr>" r w2]
      by (cases c)
         (auto simp: migrate_def validate_schema_def await_def try_catch_def console_error_def
            return_def split: if_splits)
  qed
qed

text \<open>
  C2, as the code has it. When the \<^verbatim>\<open>try\<close> block of \<^verbatim>\<open>migrate\<close> throws \<open>e\<close> in the
  state \<open>w2\<close>, whatever was written before, \<^verbatim>\<open>migrate\<close> returns \<^verbatim>\<open>success: false\<close>, the
  message of \<open>e\<close> and \<^verbatim>\<open>migratedItems: 0\<close>; the state it leaves is \<open>w2\<close> with one more line
  on the console, so the writes made before the throw stay.
\<close>

theorem migrate_failure_reports_zero:
  assumes "localStorageProvider_isAvailable w"
    and "validate_schema w = (Inr True, w1)"
    and "ProviderDB_present w1"
    and "migrate_body w1 = (Inl e, w2)"
  shows "migrate w =
           (Inr \<lparr>success = False, message = ''Migration failed: '' @ message_of e,
                 migratedItems = 0\<rparr>,
            console_write LogError ''Migration failed:'' (Some e) w2)"
  using assms by (simp add: migrate_def await_def try_catch_def console_error_def return_def)

theorem migrate_failure_reports_zero_witness:
  "localStorageProvider_isAvailable (failing_after 3)
   \<and> fst (validate_schema (failing_after 3)) = Inr True
   \<and> ProviderDB_present (snd (validate_schema (failing_after 3)))
   \<and> fst (migrate_body (snd (validate_schema (failing_after 3)))) = Inl example_error
   \<and> ls_profiles (snd (migrate_body (snd (validate_schema (failing_after 3)))))
       = [example_default, example_work]
   \<and> migrate (failing_after 3) =
       (Inr \<lparr>success = False, message = ''Migration failed: boom'', migratedItems = 0\<rparr>,
        console_write LogError ''Migration failed:'' (Some example_error)
          (snd (migrate_body (snd (validate_schema (failing_after 3))))))"
proof -
  have a: "localStorageProvider_isAvailable (failing_after 3)"
    by code_simp
  have v: "fst (validate_schema (failing_after 3)) = Inr True"
    by code_simp
  have p: "ProviderDB_present (snd (validate_schema (failing_after 3)))"
    by code_simp
  have b: "fst (migrate_body (snd (validate_schema (failing_after 3)))) = Inl example_error"
    by code_simp
  have l: "ls_profiles (snd (migrate_body (snd (validate_schema (failing_after 3)))))
             = [example_default, example_work]"
    by code_simp
  have m: "message_of example_error = ''boom''"
    by (simp add: example_error_def)
  show ?thesis
    using a v p b l m
      migrate_failure_reports_zero [of "failing_after 3" "snd (validate_schema (failing_after 3))"
        example_error "snd (migrate_body (snd (validate_schema (failing_after 3))))"]
    by (simp add: prod_eq_iff)
qed

text \<open>
  The claim C2 as it is written fails: the fourth open of the database fails after both
  profiles have been written to localStorage, and \<^verbatim>\<open>migratedItems\<close> is 0, not 2.
\<close>

theorem migrate_partial_count_counterexample:
  "fst (migrate (failing_after 3)) =
     Inr \<lparr>success = False, message = ''Migration failed: boom'', migratedItems = 0\<rparr>
   \<and> ls_profiles (failing_after 3) = []
   \<and> ls_profiles (snd (migrate (failing_after 3))) = [example_default, example_work]"
  by code_simp

text \<open>
  C6. When \<^verbatim>\<open>migrate\<close> has returned \<^verbatim>\<open>success: true\<close>, \<^verbatim>\<open>migrateAndCleanup\<close> returns
  \<^verbatim>\<open>success: true\<close> whatever \<^verbatim>\<open>clearIndexedDB\<close> does: its rejection only changes the
  message, which then ends with the warning and the error.
\<close>

theorem migrateAndCleanup_success:
  assumes "fst (migrate w) = Inr r" and "success r"
  shows "fst (migrateAndCleanup w) =
           Inr \<lparr>success = True,
                message = (case fst (clearIndexedDB (snd (migrate w))) of
                             Inr u \<Rightarrow> message r @ '' IndexedDB has been cleaned up.''
                           | Inl e \<Rightarrow> message r @ '' Warning: Could not clear IndexedDB: ''
                                        @ error_toString e)\<rparr>"
proof -
  obtain w1 where m: "migrate w = (Inr r, w1)"
    using assms(1) by (cases "migrate w") auto
  show ?thesis
  proof (cases "clearIndexedDB w1")
    case (Pair c w2)
    then show ?thesis
      using m assms(2)
      by (cases c) (simp_all add: migrateAndCleanup_def await_def try_catch_def return_def)
  qed
qed

theorem migrateAndCleanup_success_witness:
  "fst (migrate (failing_after 9)) =
     Inr \<lparr>success = True,
          message = ''Successfully migrated 2 profiles and 3 provider configurations'',
          migratedItems = 6\<rparr>
   \<and> fst (clearIndexedDB (snd (migrate (failing_after 9)))) = Inl example_error
   \<and> fst (migrateAndCleanup (failing_after 9)) =
       Inr \<lparr>success = True,
            message = ''Successfully migrated 2 profiles and 3 provider configurations''
              @ '' Warning: Could not clear IndexedDB: AbortError: boom''\<rparr>"
proof -
  have m: "fst (migrate (failing_after 9)) =
     Inr \<lparr>success = True,
          message = ''Successfully migrated 2 profiles and 3 provider configurations'',
          migratedItems = 6\<rparr>"
    by code_simp
  have c: "fst (clearIndexedDB (snd (migrate (failing_after 9)))) = Inl example_error"
    by code_simp
  have e: "error_toString example_error = ''AbortError: boom''"
    by (simp add: example_error_def)
  show ?thesis
    using m c e migrateAndCleanup_success [OF m]
    by simp
qed

subsection \<open>What reading the status changes\<close>

lemma transp_reads: "transp reads"
  by (auto simp: transp_def reads_def)



lemma reads_hasValidIndexedDBSchema: "reads w (snd (hasValidIndexedDBSchema w))"
  by (cases "take_scenario w") (auto simp: reads_def legacy_db_def durable_db_def platform_def hasValidIndexedDBSchema_def try_catch_def indexedDB_open_def schema_onsuccess_def
        request_result_def db_close_def  Let_def take_scenario_def
      split: open_scenario.splits final_event.splits option.splits list.splits)

lemma reads_validate_schema: "reads w (snd (validate_schema w))"
  unfolding validate_schema_def
  by (rule await_rel[OF transp_reads reads_hasValidIndexedDBSchema]) (simp add: reads_def legacy_db_def durable_db_def platform_def)

lemma reads_open_transaction: "reads w (snd (open_transaction s w))"
  by (cases "take_scenario w") (auto simp: reads_def legacy_db_def durable_db_def platform_def open_transaction_def indexedDB_open_def 
        request_result_def db_close_def  Let_def take_scenario_def
      split: open_scenario.splits final_event.splits option.splits list.splits)

lemmas frame_defs = reads_def marks_def legacy_db_def durable_db_def platform_def

lemma reads_getAllProfiles: "reads w (snd (getAllProfiles w))"
proof (cases "indexedDBSchemaValid w")
  case True
  then show ?thesis
    unfolding getAllProfiles_def
    by (simp, intro await_rel [OF transp_reads reads_open_transaction])
       (simp add: frame_defs db_close_def)
next
  case False
  then show ?thesis by (simp add: getAllProfiles_def frame_defs)
qed

lemma reads_getProviderConfigsByProfile: "reads w (snd (getProviderConfigsByProfile pid w))"
proof (cases "indexedDBSchemaValid w")
  case True
  then show ?thesis
    unfolding getProviderConfigsByProfile_def
    by (simp, intro await_rel [OF transp_reads reads_open_transaction])
       (simp add: frame_defs db_close_def)
next
  case False
  then show ?thesis by (simp add: getProviderConfigsByProfile_def frame_defs)
qed

lemma reads_ls_request: "reads w (snd (ls_request w))"
  by (auto simp: ls_request_def frame_defs split: list.splits option.splits)








lemma marks_refl: "marks w w"
  by (simp add: marks_def)






lemma marks_trans: "marks w w1 \<Longrightarrow> marks w1 w2 \<Longrightarrow> marks w w2"
  by (auto simp: marks_def)










subsection \<open>The cleanup of the legacy database\<close>

lemma transp_keeps_profiles: "transp keeps_profiles"
  by (simp add: transp_def keeps_profiles_def)

lemma transp_keeps_profile: "transp (keeps_profile d)"
  by (simp add: transp_def keeps_profile_def)

lemma reads_keeps_profiles: "reads w w' \<Longrightarrow> keeps_profiles w w'"
  by (simp add: reads_def legacy_db_def keeps_profiles_def)

lemma keeps_profiles_keeps_profile: "keeps_profiles w w' \<Longrightarrow> keeps_profile d w w'"
  by (simp add: keeps_profiles_def keeps_profile_def)

lemma keeps_profiles_return: "keeps_profiles w (snd (return x w))"
  by (simp add: return_def keeps_profiles_def)

lemma keeps_profiles_console:
  "keeps_profiles w (snd (console_log s w))"
  "keeps_profiles w (snd (console_warn s e w))"
  "keeps_profiles w (snd (console_error s e w))"
  by (simp_all add: console_log_def console_warn_def console_error_def console_write_def
      keeps_profiles_def)

lemma keeps_profiles_reject: "keeps_profiles w (snd (reject e w))"
  by (simp add: reject_def keeps_profiles_def)

lemma keeps_profiles_deleteProviderConfig:
  "keeps_profiles w (snd (deleteProviderConfig cid w))"
proof (cases "indexedDBSchemaValid w")
  case True
  then show ?thesis
    unfolding deleteProviderConfig_def
    by (simp, intro await_rel [OF transp_keeps_profiles]
          reads_keeps_profiles [OF reads_open_transaction])
       (simp add: keeps_profiles_def db_close_def)
next
  case False
  then show ?thesis by (simp add: deleteProviderConfig_def keeps_profiles_def)
qed

lemma keeps_profiles_delete_configs: "keeps_profiles w (snd (delete_configs cs w))"
proof (induction cs arbitrary: w)
  case Nil
  show ?case by (simp add: keeps_profiles_return)
next
  case (Cons c cs)
  show ?case
    by (simp, intro await_rel [OF transp_keeps_profiles] keeps_profiles_deleteProviderConfig
        Cons.IH)
qed

lemma keeps_profiles_delete_all_configs: "keeps_profiles w (snd (delete_all_configs ps w))"
proof (induction ps arbitrary: w)
  case Nil
  show ?case by (simp add: keeps_profiles_return)
next
  case (Cons p ps)
  show ?case
    by (simp, intro await_rel [OF transp_keeps_profiles] keeps_profiles_delete_configs
        reads_keeps_profiles [OF reads_getProviderConfigsByProfile] Cons.IH)
qed

lemma keeps_profile_deleteProfile:
  assumes "profile_id d \<noteq> pid"
  shows "keeps_profile d w (snd (deleteProfile pid w))"
proof (cases "indexedDBSchemaValid w")
  case True
  then show ?thesis
    unfolding deleteProfile_def
    by (simp, intro await_rel [OF transp_keeps_profile]
          keeps_profiles_keeps_profile [OF reads_keeps_profiles [OF reads_open_transaction]])
       (simp add: keeps_profile_def db_close_def assms)
next
  case False
  then show ?thesis by (simp add: deleteProfile_def keeps_profile_def)
qed

lemma keeps_profile_delete_profiles:
  assumes "\<forall>p\<in>set ps. \<not> isDefault p \<longrightarrow> profile_id d \<noteq> profile_id p"
  shows "keeps_profile d w (snd (delete_profiles ps w))"
  using assms
proof (induction ps arbitrary: w)
  case Nil
  show ?case by (simp add: return_def keeps_profile_def)
next
  case (Cons p ps)
  then have IH: "keeps_profile d w (snd (delete_profiles ps w))" for w
    by simp
  show ?case
  proof (cases "isDefault p")
    case True
    then show ?thesis using IH by simp
  next
    case False
    then have ne: "profile_id d \<noteq> profile_id p"
      using Cons.prems by simp
    show ?thesis
      using False
      by (simp, intro await_rel [OF transp_keeps_profile] try_catch_rel [OF transp_keeps_profile]
          keeps_profile_deleteProfile [OF ne] IH
          keeps_profiles_keeps_profile [OF keeps_profiles_console(2)])
  qed
qed

lemma getAllProfiles_subset:
  "getAllProfiles w = (Inr ps, w1) \<Longrightarrow> set ps \<subseteq> set (profiles_store w)"
  using reads_open_transaction [of w "''profiles''"]
  by (auto simp: getAllProfiles_def await_def db_close_def reads_def legacy_db_def
      split: if_splits prod.splits sum.splits)

lemma distinct_ids:
  assumes "distinct (map profile_id ps)" and "d \<in> set ps" and "p \<in> set ps"
    and "isDefault d" and "\<not> isDefault p"
  shows "profile_id d \<noteq> profile_id p"
proof -
  have "d \<noteq> p" using assms(4,5) by auto
  moreover have "inj_on profile_id (set ps)"
    using assms(1) by (simp add: distinct_map)
  ultimately show ?thesis
    using assms(2,3) by (auto dest: inj_onD)
qed

lemma keeps_profile_clear_body:
  assumes "distinct (map profile_id (profiles_store w))" and "isDefault d"
  shows "keeps_profile d w (snd (clear_body w))"
proof (cases "d \<in> set (profiles_store w)")
  case False
  then show ?thesis by (simp add: keeps_profile_def)
next
  case True
  let ?w0 = "console_write LogInfo ''Clearing IndexedDB after migration...'' None w"
  have w0: "profiles_store ?w0 = profiles_store w"
    by (simp add: console_write_def)
  obtain r w1 where g: "getAllProfiles ?w0 = (r, w1)"
    by (metis prod.exhaust)
  have 1: "keeps_profiles w w1"
    using reads_keeps_profiles [OF reads_getAllProfiles [of ?w0]] g w0
    by (simp add: keeps_profiles_def)
  show ?thesis
  proof (cases r)
    case (Inl e)
    then show ?thesis
      using g 1 keeps_profiles_keeps_profile [OF 1, of d]
      by (simp add: clear_body_def await_def console_log_def)
  next
    case (Inr ps)
    have sub: "set ps \<subseteq> set (profiles_store w)"
      using getAllProfiles_subset [of ?w0 ps w1] g Inr w0 by simp
    have ne: "\<forall>p\<in>set ps. \<not> isDefault p \<longrightarrow> profile_id d \<noteq> profile_id p"
      using distinct_ids [OF assms(1) True _ assms(2)] sub by blast
    have rest: "keeps_profile d w1
        (snd (await (delete_all_configs ps)
                (\<lambda>_. await (delete_profiles ps) (\<lambda>_. console_log ''IndexedDB cleanup completed'')) w1))"
      by (intro await_rel [OF transp_keeps_profile]
          keeps_profiles_keeps_profile [OF keeps_profiles_delete_all_configs]
          keeps_profile_delete_profiles [OF ne]
          keeps_profiles_keeps_profile [OF keeps_profiles_console(1)])
    show ?thesis
      using g Inr rest keeps_profiles_keeps_profile [OF 1, of d] True
      by (simp add: clear_body_def await_def console_log_def keeps_profile_def)
  qed
qed

text \<open>
  C5. In a legacy database whose profiles have distinct ids (the object store is keyed by
  \<^verbatim>\<open>id\<close>), a profile flagged \<^verbatim>\<open>isDefault\<close> that is in the store before
  \<^verbatim>\<open>clearIndexedDB\<close> is in the store afterwards, whichever requests fail on the way and
  whether or not it is the only profile.
\<close>

theorem clearIndexedDB_keeps_default:
  assumes "distinct (map profile_id (profiles_store w))"
    and "d \<in> set (profiles_store w)"
    and "isDefault d"
  shows "d \<in> set (profiles_store (snd (clearIndexedDB w)))"
proof -
  obtain b w1 where v: "validate_schema w = (Inr b, w1)"
    using hasValidIndexedDBSchema_Inr [of w]
    by (auto simp: validate_schema_def await_def)
  have 1: "profiles_store w1 = profiles_store w"
    using reads_keeps_profiles [OF reads_validate_schema [of w]] v
    by (simp add: keeps_profiles_def)
  show ?thesis
  proof (cases "\<not> ProviderDB_present w1 \<or> \<not> b")
    case True
    then show ?thesis
      using v 1 assms(2)
      by (auto simp: clearIndexedDB_def await_def console_warn_def console_write_def)
  next
    case False
    have "keeps_profile d w1 (snd (try_catch clear_body
           (\<lambda>error. await (console_error ''Error clearing IndexedDB:'' (Some error))
                       (\<lambda>_. reject error)) w1))"
      using assms(1,3) 1
      by (intro try_catch_rel [OF transp_keeps_profile] await_rel [OF transp_keeps_profile]
          keeps_profile_clear_body keeps_profiles_keeps_profile [OF keeps_profiles_console(3)]
          keeps_profiles_keeps_profile [OF keeps_profiles_reject]) simp_all
    then show ?thesis
      using v 1 assms(2) False
      by (auto simp: clearIndexedDB_def await_def keeps_profile_def)
  qed
qed


theorem clearIndexedDB_keeps_default_witness:
  "distinct (map profile_id (profiles_store (example_world\<lparr>profiles_store := [example_default]\<rparr>)))
   \<and> example_default \<in> set (profiles_store (example_world\<lparr>profiles_store := [example_default]\<rparr>))
   \<and> isDefault example_default
   \<and> example_default
       \<in> set (profiles_store (snd (clearIndexedDB (example_world\<lparr>profiles_store := [example_default]\<rparr>))))"
  using clearIndexedDB_keeps_default
    [of "example_world\<lparr>profiles_store := [example_default]\<rparr>" example_default]
  by (simp add: example_world_def example_default_def)











subsection \<open>What the migration writes\<close>

lemma transp_relays: "transp relays"
  by (auto simp: transp_def relays_def)

lemma relays_trans: "relays w w1 \<Longrightarrow> relays w1 w2 \<Longrightarrow> relays w w2"
  using transp_relays by (meson transpD)

lemma reads_relays: "reads w w' \<Longrightarrow> relays w w'"
  by (simp add: reads_def legacy_db_def durable_db_def relays_def)

lemma relays_return: "relays w (snd (return x w))"
  by (simp add: return_def relays_def)

lemma relays_console:
  "relays w (snd (console_log s w))"
  "relays w (snd (console_warn s e w))"
  "relays w (snd (console_error s e w))"
  by (simp_all add: console_log_def console_warn_def console_error_def console_write_def
      relays_def)

lemma reads_getMetadata: "reads w (snd (getMetadata key w))"
proof (cases "indexedDBSchemaValid w")
  case True
  then show ?thesis
    unfolding getMetadata_def
    by (simp, intro await_rel [OF transp_reads reads_open_transaction])
       (simp add: frame_defs db_close_def)
next
  case False
  then show ?thesis by (simp add: getMetadata_def frame_defs)
qed

lemma reads_getSchemaVersion: "reads w (snd (getSchemaVersion w))"
proof (cases "indexedDBSchemaValid w")
  case True
  then show ?thesis
    unfolding getSchemaVersion_def
    by (simp, intro await_rel [OF transp_reads reads_open_transaction])
       (simp add: frame_defs db_close_def)
next
  case False
  then show ?thesis by (simp add: getSchemaVersion_def frame_defs)
qed

lemma set_upsert: "set (upsert same x xs) \<subseteq> insert x (set xs)"
  by (induction xs) auto

lemma relays_saveProfile: "relays w (snd (localStorageProvider_saveProfile p w))"
  unfolding localStorageProvider_saveProfile_def
  by (intro await_rel [OF transp_relays] reads_relays [OF reads_ls_request])
     (simp add: relays_def)

lemma relays_setMetadata: "relays w (snd (localStorageProvider_setMetadata k v w))"
  unfolding localStorageProvider_setMetadata_def
  by (intro await_rel [OF transp_relays] reads_relays [OF reads_ls_request])
     (simp add: relays_def)

lemma relays_setSchemaVersion: "relays w (snd (localStorageProvider_setSchemaVersion n w))"
  unfolding localStorageProvider_setSchemaVersion_def
  by (intro await_rel [OF transp_relays] reads_relays [OF reads_ls_request])
     (simp add: relays_def)

lemma relays_saveProviderConfig:
  assumes "c \<in> set (provider_configs_store w)"
  shows "relays w (snd (localStorageProvider_saveProviderConfig (config_input c) w))"
proof (cases "ls_request w")
  case (Pair r w1)
  have 1: "reads w w1"
    using reads_ls_request [of w] Pair by simp
  show ?thesis
  proof (cases r)
    case (Inl e)
    then show ?thesis
      using Pair reads_relays [OF 1]
      by (simp add: localStorageProvider_saveProviderConfig_def await_def)
  next
    case (Inr u)
    then show ?thesis
      using Pair 1 assms set_upsert [of _ "config_input c" "ls_provider_configs w1"]
      by (auto simp: localStorageProvider_saveProviderConfig_def await_def relays_def reads_def
          legacy_db_def durable_db_def)
  qed
qed

lemma relays_save_configs:
  assumes "set cs \<subseteq> set (provider_configs_store w)"
  shows "relays w (snd (save_configs cs acc w))"
  using assms
proof (induction cs arbitrary: acc w)
  case Nil
  show ?case by (simp add: relays_return)
next
  case (Cons c cs)
  obtain r w1 where s: "localStorageProvider_saveProviderConfig (config_input c) w = (r, w1)"
    by (metis prod.exhaust)
  have 1: "relays w w1"
    using relays_saveProviderConfig [of c w] Cons.prems s by simp
  show ?case
  proof (cases r)
    case (Inl e)
    then show ?thesis using s 1 by (simp add: await_def)
  next
    case (Inr u)
    have "set cs \<subseteq> set (provider_configs_store w1)"
      using Cons.prems 1 by (simp add: relays_def)
    from Cons.IH [OF this, of "(fst acc + 1, snd acc + 1)"]
    show ?thesis
      using s Inr relays_trans [OF 1] by (simp add: await_def)
  qed
qed

lemma getProviderConfigsByProfile_subset:
  "getProviderConfigsByProfile pid w = (Inr cs, w1) \<Longrightarrow> set cs \<subseteq> set (provider_configs_store w1)"
  using reads_open_transaction [of w "''provider_configs''"]
  by (auto simp: getProviderConfigsByProfile_def await_def db_close_def reads_def legacy_db_def
      split: if_splits prod.splits sum.splits)

lemma relays_migrate_configs: "relays w (snd (migrate_configs ps acc w))"
proof (induction ps arbitrary: acc w)
  case Nil
  show ?case by (simp add: relays_return)
next
  case (Cons p ps)
  obtain r w1 where g: "getProviderConfigsByProfile (profile_id p) w = (r, w1)"
    by (metis prod.exhaust)
  have 1: "relays w w1"
    using reads_relays [OF reads_getProviderConfigsByProfile [of w "profile_id p"]] g by simp
  show ?case
  proof (cases r)
    case (Inl e)
    then show ?thesis using g 1 by (simp add: await_def)
  next
    case (Inr cs)
    let ?w2 = "console_write LogInfo
                (''Migrating '' @ show_nat (length cs) @ '' provider configs for profile ''
                   @ profile_name p) None w1"
    have sub: "set cs \<subseteq> set (provider_configs_store ?w2)"
      using getProviderConfigsByProfile_subset [of "profile_id p" w cs w1] g Inr
      by (simp add: console_write_def)
    have 2: "relays w1 ?w2"
      using relays_console(1) [of w1] by (simp add: console_log_def)
    have "relays ?w2 (snd (await (save_configs cs acc) (migrate_configs ps) ?w2))"
      by (intro await_rel [OF transp_relays] relays_save_configs [OF sub] Cons.IH)
    then show ?thesis
      using g Inr relays_trans [OF 1 relays_trans [OF 2]]
      by (simp add: await_def console_log_def)
  qed
qed

lemma relays_save_profiles: "relays w (snd (save_profiles ps n w))"
proof (induction ps arbitrary: n w)
  case Nil
  show ?case by (simp add: relays_return)
next
  case (Cons p ps)
  show ?case
    by (simp, intro await_rel [OF transp_relays] relays_saveProfile Cons.IH)
qed

lemma relays_metadata_caught: "relays w (snd (metadata_caught n e w))"
  unfolding metadata_caught_def
  by (intro await_rel [OF transp_relays] relays_console relays_return)

lemma relays_migrate_schema_version: "relays w (snd (migrate_schema_version n w))"
  unfolding migrate_schema_version_def
  by (intro await_or_rel [OF transp_relays] reads_relays [OF reads_getSchemaVersion]
      relays_metadata_caught relays_setMetadata relays_return)

lemma relays_migrate_metadata: "relays w (snd (migrate_metadata n w))"
  unfolding migrate_metadata_def
  by (intro await_or_rel [OF transp_relays] reads_relays [OF reads_getMetadata]
      relays_metadata_caught relays_setMetadata rel_if_app [where R = relays]
      relays_migrate_schema_version)

lemma relays_migrate_body: "relays w (snd (migrate_body w))"
  unfolding migrate_body_def
  apply (intro await_rel [OF transp_relays] relays_console
      reads_relays [OF reads_getAllProfiles] relays_save_profiles relays_migrate_configs)
  apply (rule rel_case_prod [where R = relays])
  apply (intro await_rel [OF transp_relays] relays_console relays_migrate_metadata
      relays_setSchemaVersion relays_return)
  done

lemma relays_migrate: "relays w (snd (migrate w))"
proof (cases "localStorageProvider_isAvailable w")
  case False
  then show ?thesis by (simp add: migrate_def relays_return)
next
  case True
  have "relays w (snd (await validate_schema (\<lambda>schemaValid w1.
          if \<not> ProviderDB_present w1 \<or> \<not> schemaValid
          then return \<lparr>success = False,
                       message = ''IndexedDB is not available or has invalid schema'',
                       migratedItems = 0\<rparr> w1
          else
            try_catch migrate_body
              (\<lambda>error.
                 await (console_error ''Migration failed:'' (Some error)) (\<lambda>_.
                   return \<lparr>success = False,
                           message = ''Migration failed: '' @ message_of error,
                           migratedItems = 0\<rparr>))
              w1) w))"
    by (intro await_rel [OF transp_relays] reads_relays [OF reads_validate_schema]
        rel_if [where R = relays] relays_return try_catch_rel [OF transp_relays]
        relays_migrate_body relays_console)
  with True show ?thesis by (simp add: migrate_def)
qed


lemma apiKey_config_input: "apiKey (config_input c) = apiKey c"
  by (simp add: config_input_def)

text \<open>
  C8. Whatever requests fail, every provider config that is in localStorage after
  \<^verbatim>\<open>migrate\<close> was there before or is the \<open>config_input\<close> of a provider config \<open>c\<close> of the
  legacy database, the object that \<^verbatim>\<open>migrate\<close> builds field by field; its \<^verbatim>\<open>apiKey\<close> is
  the \<^verbatim>\<open>apiKey\<close> of \<open>c\<close>, the same envelope or the same \<^verbatim>\<open>null\<close>. Nothing in
  \<^verbatim>\<open>migrate\<close> calls \<^verbatim>\<open>encrypt\<close> or \<^verbatim>\<open>decrypt\<close>, and neither does its model.
\<close>

theorem migrate_relays_apiKey:
  assumes "x \<in> set (ls_provider_configs (snd (migrate w)))"
  shows "x \<in> set (ls_provider_configs w)
         \<or> (\<exists>c\<in>set (provider_configs_store w). x = config_input c \<and> apiKey x = apiKey c)"
proof -
  have "x \<in> set (ls_provider_configs w) \<union> config_input ` set (provider_configs_store w)"
    using relays_migrate [of w] assms unfolding relays_def by blast
  then show ?thesis
    using apiKey_config_input by blast
qed


theorem migrate_relays_apiKey_witness:
  "config_input (example_config ''c3'' ''p2'' ''google'')
     \<in> set (ls_provider_configs (snd (migrate example_world)))
   \<and> (\<exists>c\<in>set (provider_configs_store example_world).
         config_input (example_config ''c3'' ''p2'' ''google'') = config_input c
         \<and> apiKey (config_input (example_config ''c3'' ''p2'' ''google'')) = apiKey c)
   \<and> apiKey (config_input (example_config ''c3'' ''p2'' ''google''))
       = Some \<lparr>iv = ''aXY='', data = ''ZGF0YQ==''\<rparr>"
proof -
  have h: "config_input (example_config ''c3'' ''p2'' ''google'')
             \<in> set (ls_provider_configs (snd (migrate example_world)))"
    by code_simp
  have e: "ls_provider_configs example_world = []"
    by (simp add: example_world_def)
  have k: "apiKey (config_input (example_config ''c3'' ''p2'' ''google''))
             = Some \<lparr>iv = ''aXY='', data = ''ZGF0YQ==''\<rparr>"
    by (simp add: config_input_def example_config_def)
  show ?thesis
    using migrate_relays_apiKey [OF h] h e k by simp
qed

subsection \<open>The migration when no request fails\<close>

lemma yields_await:
  "yields m w x \<Longrightarrow> yields (f x) (snd (m w)) y \<Longrightarrow> yields (await m f) w y"
  by (cases "m w") (auto simp: yields_def await_def)

lemma yields_await_or:
  "yields m w x \<Longrightarrow> yields (f x) (snd (m w)) y \<Longrightarrow> yields (await_or m h f) w y"
  by (cases "m w") (auto simp: yields_def await_or_def)

lemma yields_return: "calm w \<Longrightarrow> indexedDBSchemaValid w \<Longrightarrow> yields (return x) w x"
  by (simp add: yields_def return_def)

lemma yields_steady: "yields m w x \<Longrightarrow> calm (snd (m w)) \<and> indexedDBSchemaValid (snd (m w))"
  by (simp add: yields_def)

lemma yields_legacy: "yields m w x \<Longrightarrow> legacy_db (snd (m w)) = legacy_db w"
  by (simp add: yields_def)

lemma yields_console_log:
  "calm w \<Longrightarrow> indexedDBSchemaValid w \<Longrightarrow> yields (console_log s) w ()"
  by (simp add: yields_def console_log_def console_write_def calm_def legacy_db_def)

lemma yields_validate_schema: "calm w \<Longrightarrow> yields validate_schema w True"
  by (auto simp: yields_def calm_def validate_schema_def await_def hasValidIndexedDBSchema_def
      try_catch_def indexedDB_open_def take_scenario_def schema_onsuccess_def request_result_def
      db_close_def legacy_db_def list_all_iff)

lemma open_transaction_calm:
  assumes "calm w" and "s \<in> set requiredStores"
  shows "open_transaction s w =
           (Inr (), w\<lparr>idb_open_requests := idb_open_requests w + 1,
                       idb_connections := idb_connections w + 1\<rparr>)"
  using assms
  by (auto simp: calm_def open_transaction_def indexedDB_open_def take_scenario_def
      request_result_def)

lemma yields_getAllProfiles:
  "calm w \<Longrightarrow> indexedDBSchemaValid w \<Longrightarrow> yields getAllProfiles w (profiles_store w)"
  by (simp add: yields_def getAllProfiles_def await_def open_transaction_calm requiredStores_def
      db_close_def calm_def legacy_db_def)

lemma yields_getProviderConfigsByProfile:
  "calm w \<Longrightarrow> indexedDBSchemaValid w \<Longrightarrow>
   yields (getProviderConfigsByProfile (profile_id p)) w (configs_of w p)"
  by (simp add: yields_def getProviderConfigsByProfile_def await_def open_transaction_calm
      requiredStores_def db_close_def calm_def legacy_db_def configs_of_def)

lemma yields_getMetadata:
  "calm w \<Longrightarrow> indexedDBSchemaValid w \<Longrightarrow>
   yields (getMetadata ''active_profile_id'') w (active_profile_id w)"
  by (simp add: yields_def getMetadata_def await_def open_transaction_calm
      requiredStores_def db_close_def calm_def legacy_db_def active_profile_id_def)

lemma yields_getSchemaVersion:
  "calm w \<Longrightarrow> indexedDBSchemaValid w \<Longrightarrow> \<exists>v. yields getSchemaVersion w v"
  by (simp add: yields_def getSchemaVersion_def await_def open_transaction_calm
      requiredStores_def db_close_def calm_def legacy_db_def)

lemma ls_request_calm: "calm w \<Longrightarrow> ls_request w = (Inr (), w)"
  by (simp add: calm_def ls_request_def)

lemma yields_saveProfile:
  "calm w \<Longrightarrow> indexedDBSchemaValid w \<Longrightarrow> yields (localStorageProvider_saveProfile p) w ()"
  by (simp add: yields_def localStorageProvider_saveProfile_def await_def ls_request_calm
      calm_def legacy_db_def)

lemma yields_saveProviderConfig:
  "calm w \<Longrightarrow> indexedDBSchemaValid w \<Longrightarrow>
   yields (localStorageProvider_saveProviderConfig c) w ()"
  by (simp add: yields_def localStorageProvider_saveProviderConfig_def await_def ls_request_calm
      calm_def legacy_db_def)

lemma yields_setMetadata:
  "calm w \<Longrightarrow> indexedDBSchemaValid w \<Longrightarrow>
   yields (localStorageProvider_setMetadata k v) w ()"
  by (simp add: yields_def localStorageProvider_setMetadata_def await_def ls_request_calm
      calm_def legacy_db_def)

lemma yields_setSchemaVersion:
  "calm w \<Longrightarrow> indexedDBSchemaValid w \<Longrightarrow>
   yields (localStorageProvider_setSchemaVersion n) w ()"
  by (simp add: yields_def localStorageProvider_setSchemaVersion_def await_def ls_request_calm
      calm_def legacy_db_def)

lemma yields_save_profiles:
  "calm w \<Longrightarrow> indexedDBSchemaValid w \<Longrightarrow> yields (save_profiles ps n) w (n + length ps)"
proof (induction ps arbitrary: n w)
  case Nil
  then show ?case by (simp add: yields_return)
next
  case (Cons p ps)
  have 1: "yields (localStorageProvider_saveProfile p) w ()"
    using Cons.prems by (rule yields_saveProfile)
  have 2: "yields (save_profiles ps (n + 1)) (snd (localStorageProvider_saveProfile p w))
             (n + 1 + length ps)"
    using yields_steady [OF 1] by (intro Cons.IH) simp_all
  show ?case
    using yields_await [OF 1, of "\<lambda>_. save_profiles ps (n + 1)"] 2 by simp
qed

lemma yields_save_configs:
  "calm w \<Longrightarrow> indexedDBSchemaValid w \<Longrightarrow>
   yields (save_configs cs acc) w (fst acc + length cs, snd acc + length cs)"
proof (induction cs arbitrary: acc w)
  case Nil
  then show ?case by (simp add: yields_return)
next
  case (Cons c cs)
  have 1: "yields (localStorageProvider_saveProviderConfig (config_input c)) w ()"
    using Cons.prems by (rule yields_saveProviderConfig)
  have 2: "yields (save_configs cs (fst acc + 1, snd acc + 1))
             (snd (localStorageProvider_saveProviderConfig (config_input c) w))
             (fst (fst acc + 1, snd acc + 1) + length cs, snd (fst acc + 1, snd acc + 1) + length cs)"
    using yields_steady [OF 1] by (intro Cons.IH) simp_all
  show ?case
    using yields_await [OF 1, of "\<lambda>_. save_configs cs (fst acc + 1, snd acc + 1)"] 2 by simp
qed


lemma configs_of_legacy: "legacy_db w' = legacy_db w \<Longrightarrow> configs_of w' p = configs_of w p"
  by (simp add: legacy_db_def configs_of_def)

lemma active_profile_id_legacy:
  "legacy_db w' = legacy_db w \<Longrightarrow> active_profile_id w' = active_profile_id w"
  by (simp add: legacy_db_def active_profile_id_def)

lemma yields_migrate_configs:
  "calm w \<Longrightarrow> indexedDBSchemaValid w \<Longrightarrow>
   yields (migrate_configs ps acc) w
     (fst acc + (\<Sum>p\<leftarrow>ps. length (configs_of w p)), snd acc + (\<Sum>p\<leftarrow>ps. length (configs_of w p)))"
proof (induction ps arbitrary: acc w)
  case Nil
  then show ?case by (simp add: yields_return)
next
  case (Cons p ps)
  let ?cs = "configs_of w p"
  let ?log = "console_log (''Migrating '' @ show_nat (length ?cs)
                @ '' provider configs for profile '' @ profile_name p)"
  let ?acc = "(fst acc + length ?cs, snd acc + length ?cs)"
  let ?w1 = "snd (getProviderConfigsByProfile (profile_id p) w)"
  let ?w2 = "snd (?log ?w1)"
  let ?w3 = "snd (save_configs ?cs acc ?w2)"
  have 1: "yields (getProviderConfigsByProfile (profile_id p)) w ?cs"
    using Cons.prems by (rule yields_getProviderConfigsByProfile)
  have 2: "yields ?log ?w1 ()"
    using yields_steady [OF 1] by (intro yields_console_log) simp_all
  have 3: "yields (save_configs ?cs acc) ?w2 ?acc"
    using yields_steady [OF 2] by (intro yields_save_configs) simp_all
  have l: "legacy_db ?w3 = legacy_db w"
    using yields_legacy [OF 1] yields_legacy [OF 2] yields_legacy [OF 3] by simp
  have 4: "yields (migrate_configs ps ?acc) ?w3
             (fst ?acc + (\<Sum>p\<leftarrow>ps. length (configs_of ?w3 p)),
              snd ?acc + (\<Sum>p\<leftarrow>ps. length (configs_of ?w3 p)))"
    using yields_steady [OF 3] by (intro Cons.IH) simp_all
  have 5: "yields (migrate_configs ps ?acc) ?w3
             (fst acc + (\<Sum>p\<leftarrow>p # ps. length (configs_of w p)),
              snd acc + (\<Sum>p\<leftarrow>p # ps. length (configs_of w p)))"
    using 4 by (simp only: configs_of_legacy [OF l] fst_conv snd_conv list.map sum_list.Cons
        add.assoc)
  have "yields (await (save_configs ?cs acc) (migrate_configs ps)) ?w2
             (fst acc + (\<Sum>p\<leftarrow>p # ps. length (configs_of w p)),
              snd acc + (\<Sum>p\<leftarrow>p # ps. length (configs_of w p)))"
    using 3 5 by (rule yields_await)
  then have "yields (await ?log (\<lambda>_. await (save_configs ?cs acc) (migrate_configs ps))) ?w1
             (fst acc + (\<Sum>p\<leftarrow>p # ps. length (configs_of w p)),
              snd acc + (\<Sum>p\<leftarrow>p # ps. length (configs_of w p)))"
    using 2 by (intro yields_await [where x = "()"])
  then have "yields (await (getProviderConfigsByProfile (profile_id p))
                      (\<lambda>configs. await (console_log (''Migrating '' @ show_nat (length configs)
                          @ '' provider configs for profile '' @ profile_name p))
                        (\<lambda>_. await (save_configs configs acc) (migrate_configs ps)))) w
             (fst acc + (\<Sum>p\<leftarrow>p # ps. length (configs_of w p)),
              snd acc + (\<Sum>p\<leftarrow>p # ps. length (configs_of w p)))"
    by (intro yields_await [OF 1])
  then show ?case
    by (simp only: migrate_configs.simps)
qed

lemma yields_migrate_schema_version:
  assumes "calm w" and "indexedDBSchemaValid w"
  shows "yields (migrate_schema_version n) w (n + 1)"
proof -
  obtain v where 1: "yields getSchemaVersion w v"
    using yields_getSchemaVersion [OF assms] by blast
  let ?w1 = "snd (getSchemaVersion w)"
  have 2: "yields (localStorageProvider_setMetadata ''schema_version'' v) ?w1 ()"
    using yields_steady [OF 1] by (intro yields_setMetadata) simp_all
  have 3: "yields (return (n + 1))
             (snd (localStorageProvider_setMetadata ''schema_version'' v ?w1)) (n + 1)"
    using yields_steady [OF 2] by (intro yields_return) simp_all
  show ?thesis
    unfolding migrate_schema_version_def
    by (rule yields_await_or [OF 1], rule yields_await_or [OF 2], rule 3)
qed

lemma yields_migrate_metadata:
  assumes "calm w" and "indexedDBSchemaValid w"
  shows "yields (migrate_metadata n) w (n + (if truthy (active_profile_id w) then 2 else 1))"
proof -
  let ?a = "active_profile_id w"
  let ?w1 = "snd (getMetadata ''active_profile_id'' w)"
  have 1: "yields (getMetadata ''active_profile_id'') w ?a"
    using assms by (rule yields_getMetadata)
  show ?thesis
  proof (cases "truthy ?a")
    case True
    have 2: "yields (localStorageProvider_setMetadata ''active_profile_id'' ?a) ?w1 ()"
      using yields_steady [OF 1] by (intro yields_setMetadata) simp_all
    have 3: "yields (migrate_schema_version (n + 1))
               (snd (localStorageProvider_setMetadata ''active_profile_id'' ?a ?w1)) (n + 1 + 1)"
      using yields_steady [OF 2] by (intro yields_migrate_schema_version) simp_all
    have "yields (await_or (localStorageProvider_setMetadata ''active_profile_id'' ?a)
                    (metadata_caught n) (\<lambda>_. migrate_schema_version (n + 1))) ?w1 (n + 1 + 1)"
      by (rule yields_await_or [OF 2], rule 3)
    then show ?thesis
      unfolding migrate_metadata_def
      using True by (intro yields_await_or [OF 1]) simp
  next
    case False
    have "yields (migrate_schema_version n) ?w1 (n + 1)"
      using yields_steady [OF 1] by (intro yields_migrate_schema_version) simp_all
    then show ?thesis
      unfolding migrate_metadata_def
      using False by (intro yields_await_or [OF 1]) simp
  qed
qed


lemma yields_migrate_body:
  assumes "calm w" and "indexedDBSchemaValid w"
  shows "yields migrate_body w
           \<lparr>success = True,
            message = ''Successfully migrated '' @ show_nat (length (profiles_store w))
              @ '' profiles and ''
              @ show_nat (0 + (\<Sum>p\<leftarrow>profiles_store w. length (configs_of w p)))
              @ '' provider configurations'',
            migratedItems = 0 + length (profiles_store w)
              + (\<Sum>p\<leftarrow>profiles_store w. length (configs_of w p))
              + (if truthy (active_profile_id w) then 2 else 1)\<rparr>"
proof -
  let ?ps = "profiles_store w"
  let ?k = "\<Sum>p\<leftarrow>?ps. length (configs_of w p)"
  let ?n1 = "0 + length ?ps"
  let ?meta = "if truthy (active_profile_id w) then 2 else 1 :: nat"
  let ?l1 = "console_log ''Starting IndexedDB to localStorage migration...''"
  let ?l2 = "console_log (''Found '' @ show_nat (length ?ps) @ '' profiles to migrate'')"
  let ?l3 = "console_log (''Migration completed successfully. Migrated ''
               @ show_nat (?n1 + ?k + ?meta) @ '' items.'')"
  let ?w1 = "snd (?l1 w)"
  let ?w2 = "snd (getAllProfiles ?w1)"
  let ?w3 = "snd (?l2 ?w2)"
  let ?w4 = "snd (save_profiles ?ps 0 ?w3)"
  let ?w5 = "snd (getAllProfiles ?w4)"
  let ?w6 = "snd (migrate_configs ?ps (?n1, 0) ?w5)"
  let ?w7 = "snd (migrate_metadata (?n1 + ?k) ?w6)"
  let ?w8 = "snd (localStorageProvider_setSchemaVersion 2 ?w7)"
  let ?w9 = "snd (?l3 ?w8)"
  have 1: "yields ?l1 w ()"
    using assms by (rule yields_console_log)
  have l1: "legacy_db ?w1 = legacy_db w"
    using yields_legacy [OF 1] .
  have 2: "yields getAllProfiles ?w1 ?ps"
    using yields_getAllProfiles [of ?w1] yields_steady [OF 1] l1
    by (simp only: legacy_db_def prod.inject)
  have l2: "legacy_db ?w2 = legacy_db w"
    using yields_legacy [OF 2] l1 by (rule trans)
  have 3: "yields ?l2 ?w2 ()"
    using yields_steady [OF 2] by (intro yields_console_log) simp_all
  have l3: "legacy_db ?w3 = legacy_db w"
    using yields_legacy [OF 3] l2 by (rule trans)
  have 4: "yields (save_profiles ?ps 0) ?w3 ?n1"
    using yields_steady [OF 3] by (intro yields_save_profiles) simp_all
  have l4: "legacy_db ?w4 = legacy_db w"
    using yields_legacy [OF 4] l3 by (rule trans)
  have 5: "yields getAllProfiles ?w4 ?ps"
    using yields_getAllProfiles [of ?w4] yields_steady [OF 4] l4
    by (simp only: legacy_db_def prod.inject)
  have l5: "legacy_db ?w5 = legacy_db w"
    using yields_legacy [OF 5] l4 by (rule trans)
  have 6: "yields (migrate_configs ?ps (?n1, 0)) ?w5 (?n1 + ?k, 0 + ?k)"
    using yields_migrate_configs [of ?w5 ?ps "(?n1, 0)"] yields_steady [OF 5]
    by (simp only: configs_of_legacy [OF l5] fst_conv snd_conv)
  have l6: "legacy_db ?w6 = legacy_db w"
    using yields_legacy [OF 6] l5 by (rule trans)
  have 7: "yields (migrate_metadata (?n1 + ?k)) ?w6 (?n1 + ?k + ?meta)"
    using yields_migrate_metadata [of ?w6 "?n1 + ?k"] yields_steady [OF 6]
    by (simp only: active_profile_id_legacy [OF l6])
  have 8: "yields (localStorageProvider_setSchemaVersion 2) ?w7 ()"
    using yields_steady [OF 7] by (intro yields_setSchemaVersion) simp_all
  have 9: "yields ?l3 ?w8 ()"
    using yields_steady [OF 8] by (intro yields_console_log) simp_all
  have 10: "yields (return \<lparr>success = True,
            message = ''Successfully migrated '' @ show_nat (length ?ps)
              @ '' profiles and '' @ show_nat (0 + ?k) @ '' provider configurations'',
            migratedItems = ?n1 + ?k + ?meta\<rparr>) ?w9
          \<lparr>success = True,
            message = ''Successfully migrated '' @ show_nat (length ?ps)
              @ '' profiles and '' @ show_nat (0 + ?k) @ '' provider configurations'',
            migratedItems = ?n1 + ?k + ?meta\<rparr>"
    using yields_steady [OF 9] by (intro yields_return) simp_all
  show ?thesis
    unfolding migrate_body_def
    apply (rule yields_await [OF 1])
    apply (rule yields_await [OF 2])
    apply (rule yields_await [OF 3])
    apply (rule yields_await [OF 4])
    apply (rule yields_await [OF 5])
    apply (rule yields_await [OF 6])
    apply (simp only: prod.case)
    apply (rule yields_await [OF 7])
    apply (rule yields_await [OF 8])
    apply (rule yields_await [OF 9])
    apply (rule 10)
    done
qed


lemma migrate_calm:
  assumes "calm w"
  shows "fst (migrate w) =
           Inr \<lparr>success = True,
                message = ''Successfully migrated '' @ show_nat (length (profiles_store w))
                  @ '' profiles and ''
                  @ show_nat (0 + (\<Sum>p\<leftarrow>profiles_store w. length (configs_of w p)))
                  @ '' provider configurations'',
                migratedItems = 0 + length (profiles_store w)
                  + (\<Sum>p\<leftarrow>profiles_store w. length (configs_of w p))
                  + (if truthy (active_profile_id w) then 2 else 1)\<rparr>"
    (is "_ = Inr ?r")
proof -
  obtain w1 where v: "validate_schema w = (Inr True, w1)"
    and s: "calm w1" "indexedDBSchemaValid w1" and l: "legacy_db w1 = legacy_db w"
    using yields_validate_schema [OF assms]
    by (cases "validate_schema w") (auto simp: yields_def)
  have p: "ProviderDB_present w1"
    using s(1) by (simp add: calm_def)
  have ps: "profiles_store w1 = profiles_store w"
    using l by (simp add: legacy_db_def)
  have "yields migrate_body w1 ?r"
    using yields_migrate_body [OF s]
    by (simp only: configs_of_legacy [OF l] active_profile_id_legacy [OF l] ps)
  then obtain w2 where b: "migrate_body w1 = (Inr ?r, w2)"
    by (cases "migrate_body w1") (simp add: yields_def)
  have a: "localStorageProvider_isAvailable w"
    using assms by (simp add: calm_def localStorageProvider_isAvailable_def)
  show ?thesis
    unfolding migrate_def
    by (simp only: a v p b await_def try_catch_def prod.case sum.case simp_thms if_True if_False
        fst_conv)
qed

lemma setSchemaVersion_written:
  "localStorageProvider_setSchemaVersion n w = (Inr u, w') \<Longrightarrow> ls_schema_version w' = n"
  by (auto simp: localStorageProvider_setSchemaVersion_def dest!: await_InrD)

lemma migrate_body_version: "migrate_body w = (Inr r, w') \<Longrightarrow> ls_schema_version w' = 2"
  unfolding migrate_body_def
  by (auto simp: return_def console_log_def console_write_def
      dest!: await_InrD setSchemaVersion_written)

lemma migrate_version:
  assumes "fst (migrate w) = Inr r" and "success r"
  shows "ls_schema_version (snd (migrate w)) = 2"
proof -
  obtain b w1 where v: "hasValidIndexedDBSchema w = (Inr b, w1)"
    using hasValidIndexedDBSchema_Inr by blast
  show ?thesis
  proof (cases "migrate_body (w1\<lparr>indexedDBSchemaValid := True\<rparr>)")
    case (Pair c w2)
    then show ?thesis
      using assms v migrate_body_version [of "w1\<lparr>indexedDBSchemaValid := True\<rparr>" _ w2]
      by (cases c)
         (auto simp: migrate_def validate_schema_def await_def try_catch_def console_error_def
            return_def split: if_splits)
  qed
qed

lemma isMigrationNeeded_migrated:
  assumes "2 \<le> ls_schema_version w"
  shows "fst (isMigrationNeeded w) = Inr False"
proof (cases "ls_request w")
  case (Pair r w1)
  have 1: "ls_schema_version w1 = ls_schema_version w"
    using reads_ls_request [of w] Pair by (simp add: reads_def)
  show ?thesis
  proof (cases r)
    case (Inr u)
    then show ?thesis
      using Pair 1 assms
      by (simp add: isMigrationNeeded_def try_catch_def await_def return_def
          localStorageProvider_getSchemaVersion_def)
  next
    case (Inl e)
    let ?w2 = "console_write LogError ''Error checking migration status:'' (Some e) w1"
    obtain r3 w3 where s: "localStorageProvider_setSchemaVersion 2 ?w2 = (r3, w3)"
      by (metis prod.exhaust)
    show ?thesis
      using Pair Inl s
      by (cases r3)
         (simp_all add: isMigrationNeeded_def try_catch_def await_def return_def
            localStorageProvider_getSchemaVersion_def console_error_def)
  qed
qed

lemma getMigrationStatus_migrated:
  assumes "2 \<le> ls_schema_version w"
  shows "\<exists>st. fst (getMigrationStatus w) = Inr st \<and> \<not> needsMigration st"
proof -
  obtain b w1 where v: "validate_schema w = (Inr b, w1)"
    using hasValidIndexedDBSchema_Inr [of w]
    by (auto simp: validate_schema_def await_def)
  have "ls_schema_version w1 = ls_schema_version w"
    using reads_validate_schema [of w] v by (simp add: reads_def)
  then have "fst (isMigrationNeeded w1) = Inr False"
    using assms by (intro isMigrationNeeded_migrated) simp
  then obtain w2 where n: "isMigrationNeeded w1 = (Inr False, w2)"
    by (cases "isMigrationNeeded w1") simp
  show ?thesis
    using v n
    by (auto simp: getMigrationStatus_def Let_def await_def split: prod.splits)
qed

text \<open>
  C1, as the code has it. The legacy database is well-formed and holds exactly two profiles,
  one default and one not, the default one with one provider config and the other with two;
  localStorage is available and no request fails. Then \<^verbatim>\<open>migrate\<close> returns
  \<^verbatim>\<open>success: true\<close>, and \<^verbatim>\<open>migratedItems\<close> counts the two profiles, the three configs
  and the metadata entries it copies: \<^verbatim>\<open>schema_version\<close> always, \<^verbatim>\<open>active_profile_id\<close>
  when the legacy database has a truthy one. That is 6 or 7. A \<^verbatim>\<open>getMigrationStatus\<close>
  that follows reports \<^verbatim>\<open>needsMigration: false\<close>.
\<close>

theorem migrate_two_profiles:
  assumes "indexedDB_defined w" and "ProviderDB_present w" and "ls_available w"
    and "idb_script w = []" and "ls_script w = []"
    and "{''profiles'', ''provider_configs'', ''app_metadata''} \<subseteq> set (objectStoreNames w)"
    and "profiles_store w = [p, q]"
    and "isDefault p \<noteq> isDefault q"
    and "length (filter (\<lambda>c. profileId c = profile_id p) (provider_configs_store w))
           = (if isDefault p then 1 else 2)"
    and "length (filter (\<lambda>c. profileId c = profile_id q) (provider_configs_store w))
           = (if isDefault q then 1 else 2)"
  shows "fst (migrate w) =
           Inr \<lparr>success = True,
                message = ''Successfully migrated 2 profiles and 3 provider configurations'',
                migratedItems =
                  (if truthy (case map_of (app_metadata_store w) ''active_profile_id'' of
                                None \<Rightarrow> JNull | Some v \<Rightarrow> v)
                   then 7 else 6)\<rparr>
         \<and> (\<exists>st. fst (getMigrationStatus (snd (migrate w))) = Inr st \<and> \<not> needsMigration st)"
proof -
  have c: "calm w"
    using assms(1-6) by (simp add: calm_def requiredStores_def)
  have k: "(\<Sum>p\<leftarrow>profiles_store w. length (configs_of w p)) = 3"
    using assms(7-10) by (auto simp: configs_of_def)
  have n: "length (profiles_store w) = 2"
    using assms(7) by simp
  have d2: "show_nat 2 = ''2''" and d3: "show_nat 3 = ''3''"
    by code_simp+
  have m: "fst (migrate w) =
           Inr \<lparr>success = True,
                message = ''Successfully migrated 2 profiles and 3 provider configurations'',
                migratedItems =
                  (if truthy (case map_of (app_metadata_store w) ''active_profile_id'' of
                                None \<Rightarrow> JNull | Some v \<Rightarrow> v)
                   then 7 else 6)\<rparr>"
    using migrate_calm [OF c]
    by (simp add: k n d2 d3 active_profile_id_def)
  have "ls_schema_version (snd (migrate w)) = 2"
    by (rule migrate_version [OF m]) simp
  then show ?thesis
    using m getMigrationStatus_migrated [of "snd (migrate w)"] by simp
qed


theorem migrate_two_profiles_witness:
  "fst (migrate (example_world\<lparr>app_metadata_store := [(''active_profile_id'', JStr ''p1'')]\<rparr>)) =
     Inr \<lparr>success = True,
          message = ''Successfully migrated 2 profiles and 3 provider configurations'',
          migratedItems = 7\<rparr>
   \<and> (\<exists>st. fst (getMigrationStatus
                  (snd (migrate (example_world\<lparr>app_metadata_store :=
                                   [(''active_profile_id'', JStr ''p1'')]\<rparr>)))) = Inr st
           \<and> \<not> needsMigration st)"
  using migrate_two_profiles
    [of "example_world\<lparr>app_metadata_store := [(''active_profile_id'', JStr ''p1'')]\<rparr>"
        example_default example_work]
  by (simp add: example_world_def example_default_def example_work_def example_config_def)

text \<open>
  The claim C1 as it is written fails: in the example state, which is the scenario of the
  claim with no metadata in the legacy database, \<^verbatim>\<open>migratedItems\<close> is 6, not 5.
\<close>

theorem migrate_counts_metadata_counterexample:
  "profiles_store example_world = [example_default, example_work]
   \<and> isDefault example_default \<and> \<not> isDefault example_work
   \<and> length (filter (\<lambda>c. profileId c = profile_id example_default)
               (provider_configs_store example_world)) = 1
   \<and> length (filter (\<lambda>c. profileId c = profile_id example_work)
               (provider_configs_store example_world)) = 2
   \<and> fst (migrate example_world) =
       Inr \<lparr>success = True,
            message = ''Successfully migrated 2 profiles and 3 provider configurations'',
            migratedItems = 6\<rparr>"
  by code_simp

end
